theory Spec2Isabelle
  imports Main "HOL-Library.AList" "HOL-Library.Sublist"
begin

section \<open>JavaScript values\<close>

text \<open>
  The Service class of san-cli (packages/san-cli/lib/Service.js) works on untyped
  JavaScript values. They are embedded by value: primitives, function references
  (a function is an opaque identity; what calling it does is given by an environment
  of behaviours where a claim needs it), arrays and plain objects as association
  lists of own properties (first binding of a key wins; prototypes, getters, array
  holes and properties on arrays or functions are outside the fragment).
  A string is the list of its code units (below 256).
\<close>

datatype jsval =
    JUndefined
  | JNull
  | JBool bool
  | JNum int
  | JStr string
  | JFun nat
  | JArr "jsval list"
  | JObj "(string \<times> jsval) list"

text \<open>Truthiness, as \<^verbatim>\<open>if (v)\<close>, \<^verbatim>\<open>!v\<close>, \<^verbatim>\<open>a && b\<close> and \<^verbatim>\<open>a || b\<close> test it.\<close>

fun truthy :: "jsval \<Rightarrow> bool" where
  "truthy JUndefined = False"
| "truthy JNull = False"
| "truthy (JBool b) = b"
| "truthy (JNum n) = (n \<noteq> 0)"
| "truthy (JStr s) = (s \<noteq> [])"
| "truthy (JFun f) = True"
| "truthy (JArr xs) = True"
| "truthy (JObj ps) = True"

fun typeof :: "jsval \<Rightarrow> string" where
  "typeof JUndefined = ''undefined''"
| "typeof JNull = ''object''"
| "typeof (JBool b) = ''boolean''"
| "typeof (JNum n) = ''number''"
| "typeof (JStr s) = ''string''"
| "typeof (JFun f) = ''function''"
| "typeof (JArr xs) = ''object''"
| "typeof (JObj ps) = ''object''"

fun isArray :: "jsval \<Rightarrow> bool" where
  "isArray (JArr xs) = True"
| "isArray v = False"

fun nullish :: "jsval \<Rightarrow> bool" where
  "nullish JUndefined = True"
| "nullish JNull = True"
| "nullish v = False"

text \<open>
  Reading a property, \<^verbatim>\<open>v.key\<close> or \<^verbatim>\<open>v[key]\<close>: the own property of a plain
  object, \<^verbatim>\<open>undefined\<close> when it has none and on every other value. On
  \<^verbatim>\<open>undefined\<close> and \<^verbatim>\<open>null\<close> the read throws a TypeError in JavaScript: each
  place of the source where that can happen tests \<open>nullish\<close> first in the model.
\<close>

fun get_prop :: "jsval \<Rightarrow> string \<Rightarrow> jsval" where
  "get_prop (JObj ps) k = (case map_of ps k of Some v \<Rightarrow> v | None \<Rightarrow> JUndefined)"
| "get_prop v k = JUndefined"

text \<open>
  Assignment \<^verbatim>\<open>obj[key] = v\<close> on a plain object: an existing property keeps its
  place, a new one is added last.
\<close>

fun set_prop :: "jsval \<Rightarrow> string \<Rightarrow> jsval \<Rightarrow> jsval" where
  "set_prop (JObj ps) k v = JObj (AList.update k v ps)"
| "set_prop w k v = w"

text \<open>Errors thrown by the code. The message of an \<open>SError\<close> is a fixed text followed
  by the string conversion of a value: both parts are kept.\<close>

datatype error =
    SError string jsval
  | TypeError string
  | Thrown jsval
  | OutsideModel string

text \<open>The decimal name of an array index, as a property key.\<close>

function index_key :: "nat \<Rightarrow> string" where
  "index_key n =
     (if n < 10 then [char_of (48 + n)] else index_key (n div 10) @ [char_of (48 + n mod 10)])"
  by pat_completeness auto
termination
  by (relation "measure id") auto

text \<open>The own enumerable properties of a value, in order: those of a plain object
  (the first binding of a key), the elements of an array and the characters of a
  string under their indices.\<close>

fun own_props :: "jsval \<Rightarrow> (string \<times> jsval) list" where
  "own_props (JObj ps) = AList.clearjunk ps"
| "own_props (JArr xs) = zip (map index_key [0 ..< length xs]) xs"
| "own_props (JStr s) = zip (map index_key [0 ..< length s]) (map (\<lambda>c. JStr [c]) s)"
| "own_props v = []"

text \<open>\<^verbatim>\<open>Object.assign(target, source)\<close> on a plain-object target.\<close>

definition object_assign :: "jsval \<Rightarrow> jsval \<Rightarrow> jsval" where
  "object_assign target source = fold (\<lambda>(k, v) t. set_prop t k v) (own_props source) target"

text \<open>\<^verbatim>\<open>a || b\<close>\<close>

definition js_or :: "jsval \<Rightarrow> jsval \<Rightarrow> jsval" where
  "js_or a b = (if truthy a then a else b)"

section \<open>Command names\<close>

text \<open>
  \<^verbatim>\<open>\s\<close> of a JavaScript regular expression and the characters removed by
  \<^verbatim>\<open>String.prototype.trim\<close> are the same set: tab, line feed, vertical tab, form
  feed, carriage return, space and no-break space (among code units below 256).
\<close>

definition is_ws :: "char \<Rightarrow> bool" where
  "is_ws c = (c \<in> set [CHR 0x09, CHR 0x0A, CHR 0x0B, CHR 0x0C, CHR 0x0D, CHR 0x20, CHR 0xA0])"

text \<open>
  \<^verbatim>\<open>command.replace(/\s{2,}/g, ' ')\<close>: scanning from the left, every maximal run
  of two or more whitespace characters becomes one space; a single whitespace
  character is kept as it is.
\<close>

function collapse_ws :: "string \<Rightarrow> string" where
  "collapse_ws [] = []"
| "collapse_ws (c # cs) =
     (if is_ws c \<and> cs \<noteq> [] \<and> is_ws (hd cs)
      then CHR '' '' # collapse_ws (dropWhile is_ws cs)
      else c # collapse_ws cs)"
  by pat_completeness auto
termination
  by (relation "measure length") (auto simp: less_Suc_eq_le length_dropWhile_le)

text \<open>
  The two alternatives of the negative lookahead \<^verbatim>\<open>(?![^[]*]|[^<]*>)\<close>:
  \<^verbatim>\<open>[^[]*]\<close> matches a prefix of the input exactly when a closing bracket comes
  before any opening bracket, and likewise \<^verbatim>\<open>[^<]*>\<close> for angle brackets.
\<close>

fun closes_first :: "char \<Rightarrow> char \<Rightarrow> string \<Rightarrow> bool" where
  "closes_first opn cls [] = False"
| "closes_first opn cls (x # xs) =
     (if x = opn then False else if x = cls then True else closes_first opn cls xs)"

definition lookahead :: "string \<Rightarrow> bool" where
  "lookahead s = (closes_first (CHR ''['') (CHR '']'') s \<or> closes_first (CHR ''<'') (CHR ''>'') s)"

text \<open>
  \<^verbatim>\<open>/\s+(?![^[]*]|[^<]*>)/\<close> matches at the start of \<open>s\<close>: some non-empty prefix
  of the leading whitespace run (the greedy \<^verbatim>\<open>\s+\<close> backtracks through them) is
  followed by input on which the lookahead pattern fails.
\<close>

definition sep_here :: "string \<Rightarrow> bool" where
  "sep_here s =
     list_ex (\<lambda>k. \<not> lookahead (drop k s)) [1 ..< Suc (length (takeWhile is_ws s))]"

text \<open>
  \<^verbatim>\<open>.split(re)[0]\<close>: the input up to the leftmost position where the separator
  matches (the whole input when it matches nowhere; the empty string when it matches at
  position 0).
\<close>

fun first_piece :: "string \<Rightarrow> string" where
  "first_piece [] = []"
| "first_piece (c # cs) = (if sep_here (c # cs) then [] else c # first_piece cs)"

definition trim :: "string \<Rightarrow> string" where
  "trim s = rev (dropWhile is_ws (rev (dropWhile is_ws s)))"

definition getCommandName :: "string \<Rightarrow> string" where
  "getCommandName command = trim (first_piece (collapse_ws command))"







section \<open>Project options\<close>

subsection \<open>Path normalization (ensureSlash, removeSlash)\<close>









subsection \<open>Deep defaults\<close>

text \<open>
  \<^verbatim>\<open>defaultsDeep\<close> is the package lodash.defaultsdeep, which the repository imports
  and does not contain. Its documented behaviour is modelled on the by-value
  fragment: source properties are assigned to the destination where the destination's
  property resolves to \<^verbatim>\<open>undefined\<close>; where both values are plain objects, or both
  arrays (index by index), the assignment recurses; every other destination value is
  kept. Copies are structural, so cloning is the identity. Where one of the two values
  is a plain object and the other an array or a function, lodash merges the
  properties of the one onto the other: that is outside the fragment, and the
  destination is kept as it is.
\<close>

fun defaultsDeep :: "jsval \<Rightarrow> jsval \<Rightarrow> jsval"
  and mergeProps :: "(string \<times> jsval) list \<Rightarrow> (string \<times> jsval) list \<Rightarrow> (string \<times> jsval) list"
  and mergeItems :: "jsval list \<Rightarrow> jsval list \<Rightarrow> jsval list"
where
  "defaultsDeep dst (JObj qs) =
     (case dst of JUndefined \<Rightarrow> JObj qs | JObj ps \<Rightarrow> JObj (mergeProps ps qs) | _ \<Rightarrow> dst)"
| "defaultsDeep dst (JArr ys) =
     (case dst of JUndefined \<Rightarrow> JArr ys | JArr xs \<Rightarrow> JArr (mergeItems xs ys) | _ \<Rightarrow> dst)"
| "defaultsDeep dst src = (case dst of JUndefined \<Rightarrow> src | _ \<Rightarrow> dst)"
| "mergeProps ps [] = ps"
| "mergeProps ps ((k, sv) # qs) =
     mergeProps (AList.update k (defaultsDeep (get_prop (JObj ps) k) sv) ps) qs"
| "mergeItems xs [] = xs"
| "mergeItems [] ys = ys"
| "mergeItems (x # xs) (y # ys) = defaultsDeep x y # mergeItems xs ys"





subsection \<open>loadProjectOptions\<close>


datatype level = Warn | Err

type_synonym log_line = "level \<times> string"









subsection \<open>The situations the specification speaks of\<close>




section \<open>Plugin resolution\<close>

text \<open>
  \<^verbatim>\<open>require(p)\<close> for a plugin reference: the module cache maps a reference to the
  value the module exports; a reference that cannot be loaded has no entry.
  \<^verbatim>\<open>_resolvePlugin\<close> writes the \<^verbatim>\<open>id\<close> into the exported object, so the cache is
  state: every function that resolves plugins returns the cache it leaves. Two
  references that name the same file are not identified.
\<close>

type_synonym modules = "string \<Rightarrow> jsval option"

definition BUILDIN_PLUGINS :: "string list" where
  "BUILDIN_PLUGINS = [''base'', ''css'', ''app'', ''optimization'', ''babel'']"

text \<open>Lines 113 to 118: a reference that is an array of length two is a plugin with
  its options.\<close>

definition splitReference :: "jsval \<Rightarrow> jsval \<times> jsval" where
  "splitReference p0 = (case p0 of JArr [a, b] \<Rightarrow> (b, a) | _ \<Rightarrow> (JUndefined, p0))"

text \<open>The object a loaded module stands for: its \<^verbatim>\<open>default\<close> export when it has a
  truthy one, else the module value itself.\<close>

definition pluginOf :: "jsval \<Rightarrow> jsval" where
  "pluginOf m = (if truthy (get_prop m ''default'') then get_prop m ''default'' else m)"

text \<open>The module value after \<^verbatim>\<open>plugin.id = p\<close>.\<close>

definition withId :: "jsval \<Rightarrow> jsval \<Rightarrow> jsval" where
  "withId m p =
     (if truthy (get_prop m ''default'')
      then set_prop m ''default'' (set_prop (get_prop m ''default'') ''id'' p)
      else set_prop m ''id'' p)"

text \<open>\<^verbatim>\<open>require(s)\<close>: the empty string is refused by \<^verbatim>\<open>require\<close> itself.\<close>

definition requireModule :: "modules \<Rightarrow> string \<Rightarrow> jsval option" where
  "requireModule ms s = (if s = [] then None else ms s)"

text \<open>The test of line 127.\<close>

definition isPlugin :: "jsval \<Rightarrow> bool" where
  "isPlugin plugin = (typeof plugin = ''object'' \<and> typeof (get_prop plugin ''apply'') = ''function'')"

text \<open>
  \<^verbatim>\<open>_resolvePlugin(p)\<close>. For a string, everything thrown inside the
  \<^verbatim>\<open>try\<close> block (the failing \<^verbatim>\<open>require\<close>, the property read on a module value
  that is \<^verbatim>\<open>null\<close> or \<^verbatim>\<open>undefined\<close>, the SError of line 141) is caught and
  replaced by the SError of line 144. An object that is \<^verbatim>\<open>null\<close> fails on the read
  of \<^verbatim>\<open>p.id\<close>, outside any \<^verbatim>\<open>try\<close>.
\<close>

definition resolvePlugin :: "jsval \<Rightarrow> modules \<Rightarrow> (error + jsval) \<times> modules" where
  "resolvePlugin p0 ms =
     (let (pluginOptions, p) = splitReference p0 in
      case p of
        JStr s \<Rightarrow>
          (case requireModule ms s of
             None \<Rightarrow> (Inl (SError ''Require plugin is valid : '' p), ms)
           | Some m \<Rightarrow>
               if nullish m then (Inl (SError ''Require plugin is valid : '' p), ms)
               else if isPlugin (pluginOf m) then
                 (if \<not> truthy (get_prop (pluginOf m) ''id'') then
                    (Inr (if truthy pluginOptions
                          then JArr [pluginOf (withId m p), pluginOptions]
                          else pluginOf (withId m p)),
                     ms(s \<mapsto> withId m p))
                  else
                    (Inr (if truthy pluginOptions then JArr [pluginOf m, pluginOptions]
                          else pluginOf m),
                     ms))
               else (Inl (SError ''Require plugin is valid : '' p), ms))
      | _ \<Rightarrow>
          if typeof p = ''object'' then
            (if nullish p then (Inl (TypeError ''Cannot read property id of null''), ms)
             else if truthy (get_prop p ''id'') \<and> typeof (get_prop p ''apply'') = ''function''
             then (Inr p, ms)
             else (Inl (SError ''Plugin is valid : '' p), ms))
          else (Inl (SError ''Plugin is valid : '' p), ms))"

text \<open>\<^verbatim>\<open>plugins.map(this._resolvePlugin)\<close>: in order, stopping at the first throw.\<close>

fun mapResolve :: "jsval list \<Rightarrow> modules \<Rightarrow> (error + jsval list) \<times> modules" where
  "mapResolve [] ms = (Inr [], ms)"
| "mapResolve (p # ps) ms =
     (case resolvePlugin p ms of
        (Inl e, ms1) \<Rightarrow> (Inl e, ms1)
      | (Inr r, ms1) \<Rightarrow>
          (case mapResolve ps ms1 of
             (Inl e, ms2) \<Rightarrow> (Inl e, ms2)
           | (Inr rs, ms2) \<Rightarrow> (Inr (r # rs), ms2)))"

text \<open>
  \<^verbatim>\<open>resolvePlugins(plugins, useBuiltInPlugin)\<close>. \<open>builtin\<close> stands for
  \<^verbatim>\<open>require('../configs/' + id)\<close>: the built-in plugin modules are files of the
  package that are not among the sources. An argument that is \<^verbatim>\<open>undefined\<close> takes
  its default.
\<close>

definition resolvePlugins ::
  "(string \<Rightarrow> jsval) \<Rightarrow> jsval \<Rightarrow> jsval \<Rightarrow> modules \<Rightarrow> (error + jsval list) \<times> modules" where
  "resolvePlugins builtin plugins useBuiltInPlugin ms =
     (let builtInPlugins =
            (if useBuiltInPlugin = JUndefined \<or> truthy useBuiltInPlugin
             then map builtin BUILDIN_PLUGINS else []);
          refs = (case plugins of JArr ps \<Rightarrow> ps | _ \<Rightarrow> [])
      in if refs \<noteq> [] then
           (case mapResolve refs ms of
              (Inl e, ms1) \<Rightarrow> (Inl e, ms1)
            | (Inr rs, ms1) \<Rightarrow> (Inr (builtInPlugins @ rs), ms1))
         else (Inr builtInPlugins, ms))"

text \<open>A string reference that cannot serve as a plugin: it cannot be loaded, or the
  value its module stands for has no callable \<^verbatim>\<open>apply\<close> property of its own (a
  module that exports a function counts: \<^verbatim>\<open>_resolvePlugin\<close> accepts objects
  only).\<close>

definition unusable :: "modules \<Rightarrow> string \<Rightarrow> bool" where
  "unusable ms s =
     (case requireModule ms s of
        None \<Rightarrow> True
      | Some m \<Rightarrow> nullish m \<or> typeof (get_prop (pluginOf m) ''apply'') \<noteq> ''function'')"

text \<open>The two ways to write a string reference: bare, or with options.\<close>

definition refers_to :: "jsval \<Rightarrow> string \<Rightarrow> bool" where
  "refers_to ref s = (case splitReference ref of (opts, p) \<Rightarrow> p = JStr s)"

section \<open>The Service instance\<close>

text \<open>
  The fields of a Service that the methods below read or write, together with the
  part of the process they touch: the module cache, and the lines handed to the
  logger. The three registries are JavaScript Maps: a key that is set again keeps its
  place, a new key goes last. Every entry of \<open>registeredCommandHandlers\<close> is an
  array, kept as the list of its elements.
\<close>

record service =
  initialized :: bool
  mode :: jsval
  projectOptions :: jsval
  plugins :: "jsval list"
  webpackChainFns :: "jsval list"
  webpackRawConfigFns :: "jsval list"
  registeredCommands :: "(string \<times> jsval) list"
  registeredCommandFlags :: "(string \<times> jsval) list"
  registeredCommandHandlers :: "(string \<times> jsval list) list"
  modules :: modules
  logged :: "log_line list"

text \<open>
  What a plugin's \<^verbatim>\<open>apply\<close> does with the facade it is given: a sequence of calls
  of the whitelisted operations that change the service, possibly ended by a throw.
  \<^verbatim>\<open>on\<close>, \<^verbatim>\<open>emit\<close> and the read-only accessors change none of the fields above.
\<close>

datatype api_call =
    RegisterCommand jsval jsval
  | RegisterCommandFlag jsval jsval jsval
  | AddPlugin jsval jsval
  | ChainWebpack jsval
  | ConfigureWebpack jsval
  | Throw error

text \<open>
  The collaborators of plugin initialization: \<^verbatim>\<open>argsert\<close> (the argument check of
  \<^verbatim>\<open>./argsert\<close>, which throws on a mismatch), and what the \<^verbatim>\<open>apply\<close> function with
  a given identity does when called with the project options and the plugin options.
\<close>

record plugin_env =
  argsert :: "string \<Rightarrow> jsval list \<Rightarrow> error option"
  applyPlugin :: "nat \<Rightarrow> jsval \<Rightarrow> jsval \<Rightarrow> api_call list"

text \<open>The handler that registerCommand installs for a command without one (it logs
  a warning): a function of the code itself, given the identity 0.\<close>

definition emptyHandler :: jsval where
  "emptyHandler = JFun 0"

text \<open>Lines 254 to 268 of registerCommand.\<close>

definition storeCommand ::
  "jsval \<Rightarrow> jsval \<Rightarrow> jsval \<Rightarrow> jsval \<Rightarrow> jsval \<Rightarrow> service \<Rightarrow> error option \<times> service" where
  "storeCommand command description builder handler middlewares s =
     (let handler1 = (if typeof handler \<noteq> ''function'' then emptyHandler else handler) in
      case command of
        JStr c \<Rightarrow>
          (None, s\<lparr>registeredCommands :=
             AList.update (getCommandName c)
               (JObj [(''command'', command),
                      (''handler'', handler1),
                      (''description'', if truthy description then description else JBool False),
                      (''builder'', if truthy builder then builder else JObj []),
                      (''middlewares'', if truthy middlewares then middlewares else JArr [])])
               (registeredCommands s)\<rparr>)
      | _ \<Rightarrow> (Some (TypeError ''command.replace is not a function''), s))"

definition registerCommand ::
  "plugin_env \<Rightarrow> jsval \<Rightarrow> jsval \<Rightarrow> service \<Rightarrow> error option \<times> service" where
  "registerCommand env name yargsModule s =
     (case argsert env ''<string|<object> [function|object]'' [name, yargsModule] of
        Some e \<Rightarrow> (Some e, s)
      | None \<Rightarrow>
          if typeof name = ''object'' then
            (if nullish name then (Some (TypeError ''Cannot read property command of null''), s)
             else storeCommand (get_prop name ''command'')
                    (js_or (get_prop name ''description'') (get_prop name ''desc''))
                    (get_prop name ''builder'') (get_prop name ''handler'')
                    (get_prop name ''middlewares'') s)
          else if typeof yargsModule = ''function'' then
            storeCommand name JUndefined JUndefined yargsModule JUndefined s
          else if nullish yargsModule then
            (Some (TypeError ''Cannot read property description of undefined''), s)
          else storeCommand name
                 (js_or (get_prop yargsModule ''description'') (get_prop yargsModule ''desc''))
                 (get_prop yargsModule ''builder'') (get_prop yargsModule ''handler'')
                 (get_prop yargsModule ''middlewares'') s)"

definition registerCommandFlag ::
  "plugin_env \<Rightarrow> jsval \<Rightarrow> jsval \<Rightarrow> jsval \<Rightarrow> service \<Rightarrow> error option \<times> service" where
  "registerCommandFlag env cmdName flag handler s =
     (case argsert env ''<string> <object> <function>'' [cmdName, flag, handler] of
        Some e \<Rightarrow> (Some e, s)
      | None \<Rightarrow>
          (case cmdName of
             JStr c \<Rightarrow>
               let name = getCommandName c;
                   flags = (case map_of (registeredCommandFlags s) name of
                              Some f \<Rightarrow> js_or f (JObj []) | None \<Rightarrow> JObj []);
                   handlers = (case map_of (registeredCommandHandlers s) name of
                                 Some hs \<Rightarrow> hs | None \<Rightarrow> [])
               in (None, s\<lparr>registeredCommandFlags :=
                              AList.update name (object_assign flags flag) (registeredCommandFlags s),
                            registeredCommandHandlers :=
                              AList.update name (handlers @ [handler]) (registeredCommandHandlers s)\<rparr>)
           | _ \<Rightarrow> (Some (TypeError ''command.replace is not a function''), s)))"

text \<open>\<^verbatim>\<open>addPlugin(name, options = {})\<close>\<close>

definition addPlugin :: "jsval \<Rightarrow> jsval \<Rightarrow> service \<Rightarrow> error option \<times> service" where
  "addPlugin name options s =
     (let opts = (if options = JUndefined then JObj [] else options) in
      case resolvePlugin (JArr [name, opts]) (modules s) of
        (Inl e, ms) \<Rightarrow> (Some e, s\<lparr>modules := ms\<rparr>)
      | (Inr plugin, ms) \<Rightarrow> (None, s\<lparr>modules := ms, plugins := plugins s @ [plugin]\<rparr>))"

text \<open>
  Modelled from the spec: ./PluginAPI is not among the sources. \<open>ChainWebpack\<close> and
  \<open>ConfigureWebpack\<close> stand for the two operations of the PluginAPI class behind
  the facade that push a callback; the specification says of the two callback lists
  that they are appended to during plugin initialization, in insertion order. The
  other calls of the facade are methods of the Service itself.
\<close>

fun performCall :: "plugin_env \<Rightarrow> api_call \<Rightarrow> service \<Rightarrow> error option \<times> service" where
  "performCall env (RegisterCommand name yargsModule) s = registerCommand env name yargsModule s"
| "performCall env (RegisterCommandFlag cmdName flag handler) s =
     registerCommandFlag env cmdName flag handler s"
| "performCall env (AddPlugin name options) s = addPlugin name options s"
| "performCall env (ChainWebpack fn) s = (None, s\<lparr>webpackChainFns := webpackChainFns s @ [fn]\<rparr>)"
| "performCall env (ConfigureWebpack fn) s =
     (None, s\<lparr>webpackRawConfigFns := webpackRawConfigFns s @ [fn]\<rparr>)"
| "performCall env (Throw e) s = (Some e, s)"

fun performCalls :: "plugin_env \<Rightarrow> api_call list \<Rightarrow> service \<Rightarrow> error option \<times> service" where
  "performCalls env [] s = (None, s)"
| "performCalls env (c # cs) s =
     (case performCall env c s of
        (Some e, s1) \<Rightarrow> (Some e, s1)
      | (None, s1) \<Rightarrow> performCalls env cs s1)"

text \<open>\<^verbatim>\<open>xs[i]\<close> on an array.\<close>

definition element :: "jsval list \<Rightarrow> nat \<Rightarrow> jsval" where
  "element xs i = (if i < length xs then xs ! i else JUndefined)"

definition initPlugin :: "plugin_env \<Rightarrow> jsval \<Rightarrow> service \<Rightarrow> error option \<times> service" where
  "initPlugin env plugin0 s =
     (let (options, plugin) =
            (case plugin0 of JArr xs \<Rightarrow> (element xs 1, element xs 0) | _ \<Rightarrow> (JObj [], plugin0))
      in if nullish plugin then (Some (TypeError ''Cannot destructure property id''), s)
         else (case get_prop plugin ''apply'' of
                 JFun f \<Rightarrow> performCalls env (applyPlugin env f (projectOptions s) options) s
               | _ \<Rightarrow> (Some (TypeError ''apply is not a function''), s)))"

text \<open>\<^verbatim>\<open>this.plugins.forEach(plugin => this.initPlugin(plugin))\<close>: forEach visits the
  elements the array had when it was called; plugins added meanwhile are not
  visited.\<close>

fun initPlugins :: "plugin_env \<Rightarrow> jsval list \<Rightarrow> service \<Rightarrow> error option \<times> service" where
  "initPlugins env [] s = (None, s)"
| "initPlugins env (p # ps) s =
     (case initPlugin env p s of
        (Some e, s1) \<Rightarrow> (Some e, s1)
      | (None, s1) \<Rightarrow> initPlugins env ps s1)"

definition init :: "plugin_env \<Rightarrow> jsval \<Rightarrow> service \<Rightarrow> error option \<times> service" where
  "init env m s =
     (if initialized s then (None, s)
      else
        (let s1 = s\<lparr>initialized := True, mode := m\<rparr> in
         case initPlugins env (plugins s1) s1 of
           (Some e, s2) \<Rightarrow> (Some e, s2)
         | (None, s2) \<Rightarrow>
             if nullish (projectOptions s2)
             then (Some (TypeError ''Cannot read property chainWebpack of undefined''), s2)
             else
               (let s3 = (if truthy (get_prop (projectOptions s2) ''chainWebpack'')
                          then s2\<lparr>webpackChainFns :=
                                 webpackChainFns s2 @ [get_prop (projectOptions s2) ''chainWebpack'']\<rparr>
                          else s2);
                    s4 = (if truthy (get_prop (projectOptions s3) ''configureWebpack'')
                          then s3\<lparr>webpackRawConfigFns :=
                                 webpackRawConfigFns s3 @ [get_prop (projectOptions s3) ''configureWebpack'']\<rparr>
                          else s3)
                in (None, s4))))"

section \<open>Command dispatch\<close>

text \<open>
  Calling a handler is an effect on a world \<open>'w\<close> that the model does not look
  into (it does not hold the registries of the service: handlers run after
  initialization, when the registries are only read). A call returns a value or
  throws. The calls made are recorded, each with the place it was made from, the
  function called, its argument and its outcome.
\<close>

datatype outcome = Returns jsval | Throws jsval

datatype site = Flag | Primary

datatype call = Call site nat jsval outcome

fun call_site :: "call \<Rightarrow> site" where
  "call_site (Call st f a r) = st"

fun call_target :: "call \<Rightarrow> nat \<times> jsval" where
  "call_target (Call st f a r) = (f, a)"

fun call_outcome :: "call \<Rightarrow> outcome" where
  "call_outcome (Call st f a r) = r"

type_synonym 'w caller = "nat \<Rightarrow> jsval \<Rightarrow> 'w \<Rightarrow> outcome \<times> 'w"

text \<open>
  The loop of lines 387 to 397 over the elements of \<open>handlers\<close>, with the current
  value of \<open>doit\<close>: an element that is not a function is passed over; the loop
  breaks on the first handler that returns \<^verbatim>\<open>false\<close>.
\<close>

fun runFlagHandlers ::
  "'w caller \<Rightarrow> jsval list \<Rightarrow> jsval \<Rightarrow> jsval \<Rightarrow> 'w \<Rightarrow> call list
     \<Rightarrow> (error + jsval) \<times> 'w \<times> call list" where
  "runFlagHandlers invoke [] argv doit w tr = (Inr doit, w, tr)"
| "runFlagHandlers invoke (h # hs) argv doit w tr =
     (case h of
        JFun f \<Rightarrow>
          (case invoke f argv w of
             (Throws e, w1) \<Rightarrow> (Inl (Thrown e), w1, tr @ [Call Flag f argv (Throws e)])
           | (Returns v, w1) \<Rightarrow>
               if v = JBool False then (Inr v, w1, tr @ [Call Flag f argv (Returns v)])
               else runFlagHandlers invoke hs argv v w1 (tr @ [Call Flag f argv (Returns v)]))
      | _ \<Rightarrow> runFlagHandlers invoke hs argv doit w tr)"

text \<open>
  The composite handler of lines 381 to 405, called with \<open>argv\<close>. \<open>handlers\<close> is
  what the handler registry holds for the command (\<^verbatim>\<open>undefined\<close> when it holds
  nothing), \<open>oHandler\<close> the handler of the command entry.
\<close>

definition commandHandler ::
  "'w caller \<Rightarrow> jsval \<Rightarrow> jsval \<Rightarrow> jsval \<Rightarrow> 'w \<Rightarrow> error option \<times> 'w \<times> call list" where
  "commandHandler invoke handlers oHandler argv w =
     (let hs = (case handlers of JArr xs \<Rightarrow> xs | JFun f \<Rightarrow> [JFun f] | _ \<Rightarrow> []) in
      case runFlagHandlers invoke hs argv (JBool True) w [] of
        (Inl e, w1, tr) \<Rightarrow> (Some e, w1, tr)
      | (Inr doit, w1, tr) \<Rightarrow>
          if doit \<noteq> JBool False then
            (case oHandler of
               JFun f \<Rightarrow>
                 (case invoke f argv w1 of
                    (Throws e, w2) \<Rightarrow> (Some (Thrown e), w2, tr @ [Call Primary f argv (Throws e)])
                  | (Returns v, w2) \<Rightarrow> (None, w2, tr @ [Call Primary f argv (Returns v)]))
             | _ \<Rightarrow> (Some (TypeError ''oHandler is not a function''), w1, tr))
          else (None, w1, tr))"

text \<open>
  The command-line parser behind \<^verbatim>\<open>this._cli\<close> (yargs) is a collaborator:
  given the command string and the builder it was registered with and the raw
  arguments, \<^verbatim>\<open>parse\<close> either dispatches to the registered handler, once, with the
  parsed arguments, or does not dispatch (help output, a failed parse).
\<close>

type_synonym parser = "jsval \<Rightarrow> jsval \<Rightarrow> jsval list \<Rightarrow> jsval option"

text \<open>
  Lines 366 and 379: the builder handed to the parser is the flags object of the
  registry for \<open>cmd\<close> (a fresh object when it has none) after
  \<^verbatim>\<open>Object.assign\<close> has copied the builder of the command entry into it.
\<close>

definition commandBuilder :: "service \<Rightarrow> string \<Rightarrow> jsval \<Rightarrow> jsval" where
  "commandBuilder s cmd entry =
     object_assign
       (case map_of (registeredCommandFlags s) cmd of
          Some f \<Rightarrow> js_or f (JObj []) | None \<Rightarrow> JObj [])
       (js_or (get_prop entry ''builder'') (JObj []))"

text \<open>Lines 409 to 411: the command name is put in front of the raw arguments
  unless it is their first element.\<close>

definition dispatchArgs :: "string \<Rightarrow> jsval list \<Rightarrow> jsval list" where
  "dispatchArgs cmd rawArgs =
     (if rawArgs \<noteq> [] \<and> hd rawArgs = JStr cmd then rawArgs else JStr cmd # rawArgs)"

text \<open>The composite handler is a function of the code itself, given the identity 1
  where it is passed as a value.\<close>

definition compositeHandler :: jsval where
  "compositeHandler = JFun 1"

text \<open>The argument check of \<^verbatim>\<open>_registerCommand\<close> (lines 271 to 275).\<close>

definition registrationCheck :: "plugin_env \<Rightarrow> service \<Rightarrow> string \<Rightarrow> jsval \<Rightarrow> error option" where
  "registrationCheck env s cmd entry =
     argsert env ''<string> <function> [string|boolean] [object|function] [array]''
       [get_prop entry ''command'', compositeHandler, get_prop entry ''description'',
        commandBuilder s cmd entry, get_prop entry ''middlewares'']"

text \<open>
  \<^verbatim>\<open>runCommand(cmd, rawArgs)\<close>. \<open>entry\<close> is what the command registry gives for
  \<open>cmd\<close> (\<^verbatim>\<open>undefined\<close> when it holds nothing). Since the flags object of the
  registry is the first argument of \<^verbatim>\<open>Object.assign\<close>, the registry holds the
  builder afterwards, when it had an entry for \<open>cmd\<close>.
\<close>

definition runCommand ::
  "plugin_env \<Rightarrow> parser \<Rightarrow> 'w caller \<Rightarrow> string \<Rightarrow> jsval list \<Rightarrow> service \<Rightarrow> 'w
     \<Rightarrow> error option \<times> service \<times> 'w \<times> call list" where
  "runCommand env parse invoke cmd rawArgs s w =
     (let handlers = (case map_of (registeredCommandHandlers s) cmd of
                        Some hs \<Rightarrow> JArr hs | None \<Rightarrow> JUndefined);
          entry = (case map_of (registeredCommands s) cmd of
                     Some c \<Rightarrow> c | None \<Rightarrow> JUndefined)
      in if \<not> truthy entry
         then (None, s\<lparr>logged := logged s @ [(Err, ''runCommand'')]\<rparr>, w, [])
         else
           (let command = get_prop entry ''command'';
                oHandler = get_prop entry ''handler'';
                builder = commandBuilder s cmd entry;
                s1 = (case map_of (registeredCommandFlags s) cmd of
                        Some f \<Rightarrow> s\<lparr>registeredCommandFlags :=
                                     AList.update cmd builder (registeredCommandFlags s)\<rparr>
                      | None \<Rightarrow> s)
            in case registrationCheck env s cmd entry of
                 Some e \<Rightarrow> (Some e, s1, w, [])
               | None \<Rightarrow>
                   (case parse command builder (dispatchArgs cmd rawArgs) of
                      None \<Rightarrow> (None, s1, w, [])
                    | Some argv \<Rightarrow>
                        (case commandHandler invoke handlers oHandler argv w of
                           (r, w1, tr) \<Rightarrow> (r, s1, w1, tr)))))"

text \<open>The function entries of a handler list, in order, and a call that returned a
  value other than \<^verbatim>\<open>false\<close>.\<close>

definition functionsOf :: "jsval list \<Rightarrow> nat list" where
  "functionsOf hs = concat (map (\<lambda>h. case h of JFun f \<Rightarrow> [f] | _ \<Rightarrow> []) hs)"

definition returned_non_false :: "call \<Rightarrow> bool" where
  "returned_non_false c =
     (case call_outcome c of Returns v \<Rightarrow> v \<noteq> JBool False | Throws e \<Rightarrow> False)"

section \<open>Resolving the webpack config\<close>

text \<open>
  The collaborators: \<^verbatim>\<open>new Config()\<close> of webpack-chain, whose state is kept as a
  value; what a chain callback does to it; \<^verbatim>\<open>toConfig\<close>, which throws on a value
  that has no such method; what a raw callback returns and what it leaves of the
  config it was given to change in place; and \<^verbatim>\<open>webpackMerge\<close>, which always
  returns a new object. The callbacks act on the config they are given: none of them
  reaches the service.
\<close>

record webpack_env =
  newConfig :: jsval
  callChain :: "nat \<Rightarrow> jsval \<Rightarrow> error + jsval"
  toConfig :: "jsval \<Rightarrow> error + jsval"
  callRaw :: "nat \<Rightarrow> jsval \<Rightarrow> error + (jsval \<times> jsval)"
  webpackMerge :: "jsval \<Rightarrow> jsval \<Rightarrow> jsval"

text \<open>\<^verbatim>\<open>this.webpackChainFns.forEach(fn => fn(chainableConfig))\<close>\<close>

fun applyChainFns :: "webpack_env \<Rightarrow> jsval list \<Rightarrow> jsval \<Rightarrow> error + jsval" where
  "applyChainFns env [] chain = Inr chain"
| "applyChainFns env (fn # fns) chain =
     (case fn of
        JFun f \<Rightarrow>
          (case callChain env f chain of
             Inl e \<Rightarrow> Inl e
           | Inr chain1 \<Rightarrow> applyChainFns env fns chain1)
      | _ \<Rightarrow> Inl (TypeError ''fn is not a function''))"

definition resolveChainableWebpackConfig :: "webpack_env \<Rightarrow> service \<Rightarrow> error + jsval" where
  "resolveChainableWebpackConfig env s = applyChainFns env (webpackChainFns s) (newConfig env)"

text \<open>
  Lines 464 to 475. The state of the loop is the current \<open>config\<close>, the
  \<open>original\<close>, and whether \<open>config\<close> has been replaced by the result of a merge
  (\<^verbatim>\<open>config !== original\<close>). Until the first merge both names denote one object,
  so what a callback changes in place shows in both.
\<close>

fun applyRawFns ::
  "webpack_env \<Rightarrow> jsval list \<Rightarrow> jsval \<times> jsval \<times> bool \<Rightarrow> error + (jsval \<times> jsval \<times> bool)" where
  "applyRawFns env [] st = Inr st"
| "applyRawFns env (fn # fns) (config, original, replaced) =
     (case fn of
        JFun f \<Rightarrow>
          (case callRaw env f config of
             Inl e \<Rightarrow> Inl e
           | Inr (res, config1) \<Rightarrow>
               let original1 = (if replaced then original else config1) in
               if truthy res
               then applyRawFns env fns (webpackMerge env config1 res, original1, True)
               else applyRawFns env fns (config1, original1, replaced))
      | _ \<Rightarrow>
          if truthy fn
          then applyRawFns env fns (webpackMerge env config fn, original, True)
          else applyRawFns env fns (config, original, replaced))"

text \<open>
  \<^verbatim>\<open>Object.defineProperty(obj, key, {value})\<close> on a plain object. The attributes of
  the property (not enumerable, not writable) are not kept. On a primitive the call
  throws; properties on arrays and functions are outside the fragment.
\<close>

fun defineProperty :: "jsval \<Rightarrow> string \<Rightarrow> jsval \<Rightarrow> error + jsval" where
  "defineProperty (JObj ps) k v = Inr (set_prop (JObj ps) k v)"
| "defineProperty (JArr xs) k v = Inl (OutsideModel ''a property on an array'')"
| "defineProperty (JFun f) k v = Inl (OutsideModel ''a property on a function'')"
| "defineProperty w k v = Inl (TypeError ''Object.defineProperty called on non-object'')"

lemma size_get_prop: "size (get_prop r k) \<le> size r"
proof (cases r)
  case (JObj ps)
  have "\<And>v. map_of ps k = Some v \<Longrightarrow> size v < size (JObj ps)"
  proof -
    fix v assume "map_of ps k = Some v"
    then have "(k, v) \<in> set ps" by (rule map_of_SomeD)
    then show "size v < size (JObj ps)"
      by (induction ps) auto
  qed
  then show ?thesis using JObj by (auto split: option.splits intro: less_imp_le)
qed simp_all

text \<open>
  \<^verbatim>\<open>cloneRuleNames(to, from)\<close>, returning what \<open>to\<close> has become. \<open>cloneEach\<close> is
  the \<^verbatim>\<open>forEach\<close> over the elements of \<open>from\<close> from index \<open>i\<close> on. A \<open>to\<close> that
  is indexed and is not an array is outside the fragment.
\<close>

function cloneRuleNames :: "jsval \<Rightarrow> jsval \<Rightarrow> error + jsval"
  and cloneEach :: "jsval \<Rightarrow> jsval list \<Rightarrow> nat \<Rightarrow> error + jsval"
where
  "cloneRuleNames to from =
     (if \<not> truthy to \<or> \<not> truthy from then Inr to
      else (case from of
              JArr rs \<Rightarrow> cloneEach to rs 0
            | _ \<Rightarrow> Inl (TypeError ''from.forEach is not a function'')))"
| "cloneEach to [] i = Inr to"
| "cloneEach to (r # rs) i =
     (case to of
        JArr ts \<Rightarrow>
          if truthy (element ts i) then
            (if nullish r then Inl (TypeError ''Cannot read property __ruleNames'')
             else
               (case defineProperty (element ts i) ''__ruleNames'' (get_prop r ''__ruleNames'') of
                  Inl e \<Rightarrow> Inl e
                | Inr t1 \<Rightarrow>
                    (case cloneRuleNames (get_prop t1 ''oneOf'') (get_prop r ''oneOf'') of
                       Inl e \<Rightarrow> Inl e
                     | Inr oneOf1 \<Rightarrow>
                         cloneEach
                           (JArr (ts[i := (if truthy (get_prop t1 ''oneOf'')
                                           then set_prop t1 ''oneOf'' oneOf1 else t1)]))
                           rs (Suc i))))
          else cloneEach to rs (Suc i)
      | _ \<Rightarrow> Inl (OutsideModel ''rules that are indexed and are not an array''))"
  by pat_completeness auto
termination
  by (relation "measure (\<lambda>x. case x of Inl (to, from) \<Rightarrow> size from
                                   | Inr (to, rs, i) \<Rightarrow> size_list size rs)")
     (auto simp: less_Suc_eq_le size_get_prop trans_le_add1)

text \<open>\<^verbatim>\<open>a && b\<close>\<close>

definition js_and :: "jsval \<Rightarrow> jsval \<Rightarrow> jsval" where
  "js_and a b = (if truthy a then b else a)"

text \<open>\<^verbatim>\<open>config.module && config.module.rules\<close>\<close>

definition rulesOf :: "jsval \<Rightarrow> jsval" where
  "rulesOf config = js_and (get_prop config ''module'') (get_prop (get_prop config ''module'') ''rules'')"

text \<open>
  Lines 480 to 482: the rules of the merged config receive the names of the rules of
  the original. \<^verbatim>\<open>cloneRuleNames\<close> changes rule objects in place; by value, the
  rules it leaves are put back where they were read.
\<close>

definition restoreRuleNames :: "jsval \<Rightarrow> jsval \<Rightarrow> error + jsval" where
  "restoreRuleNames config original =
     (if nullish config \<or> nullish original
      then Inl (TypeError ''Cannot read property module of undefined'')
      else
        (case cloneRuleNames (rulesOf config) (rulesOf original) of
           Inl e \<Rightarrow> Inl e
         | Inr rules \<Rightarrow>
             if truthy (rulesOf config)
             then Inr (set_prop config ''module'' (set_prop (get_prop config ''module'') ''rules'' rules))
             else Inr config))"

text \<open>
  The default value of the parameter (line 456): an argument that is \<^verbatim>\<open>undefined\<close>,
  passed or left out, is replaced by \<^verbatim>\<open>this.resolveChainableWebpackConfig()\<close>, which
  applies the chain callbacks, before the body runs.
\<close>

definition chainableArgument :: "webpack_env \<Rightarrow> jsval \<Rightarrow> service \<Rightarrow> error + jsval" where
  "chainableArgument env chainableConfig s =
     (if chainableConfig = JUndefined then resolveChainableWebpackConfig env s
      else Inr chainableConfig)"

text \<open>Lines 461 to 475: the raw config of the chain, and what the raw callbacks make
  of it.\<close>

definition rawConfig :: "webpack_env \<Rightarrow> jsval \<Rightarrow> service \<Rightarrow> error + (jsval \<times> jsval \<times> bool)" where
  "rawConfig env chainableConfig s =
     (case toConfig env chainableConfig of
        Inl e \<Rightarrow> Inl e
      | Inr config \<Rightarrow> applyRawFns env (webpackRawConfigFns s) (config, config, False))"

text \<open>
  \<^verbatim>\<open>resolveWebpackConfig(chainableConfig)\<close>, with the service as the call leaves
  it.
\<close>

definition resolveWebpackConfig ::
  "webpack_env \<Rightarrow> jsval \<Rightarrow> service \<Rightarrow> (error + jsval) \<times> service" where
  "resolveWebpackConfig env chainableConfig0 s =
     (case chainableArgument env chainableConfig0 s of
        Inl e \<Rightarrow> (Inl e, s)
      | Inr chainableConfig \<Rightarrow>
          if \<not> initialized s then
            (Inl (SError ''Service must call init() before calling resolveWebpackConfig().'' (JStr [])), s)
          else
            (case rawConfig env chainableConfig s of
               Inl e \<Rightarrow> (Inl e, s)
             | Inr (config, original, replaced) \<Rightarrow>
                 if replaced then
                   (case restoreRuleNames config original of
                      Inl e \<Rightarrow> (Inl e, s)
                    | Inr config1 \<Rightarrow> (Inr config1, s))
                 else (Inr config, s)))"



section \<open>Environment files\<close>

text \<open>
  The collaborators of loadEnv: \<^verbatim>\<open>findExisting\<close> of \<^verbatim>\<open>./utils\<close> (the first of
  the given paths that exists under the working directory, if any), and the inner
  function \<^verbatim>\<open>load\<close>, which reads and parses a file with dotenv and returns
  \<^verbatim>\<open>undefined\<close> when that fails. The process environment is kept as an object:
  a variable is absent, or bound to a value (in a real process always a string).
  \<open>mode\<close> is a string, the empty one standing for a missing mode.
\<close>

record env_files =
  findExisting :: "string list \<Rightarrow> string option"
  load :: "string \<Rightarrow> (string \<times> string) list option"

type_synonym process_env = "string \<Rightarrow> jsval option"

text \<open>Line 51.\<close>

definition modeEnvName :: "string \<Rightarrow> string" where
  "modeEnvName m = ''.env'' @ (if m \<noteq> [] then ''.'' @ m else [])"

text \<open>
  Lines 52 to 76: the variables of the env file that is found and of its
  \<^verbatim>\<open>.local\<close> companion, the companion's values winning. \<open>None\<close> when no env file
  exists; a default file that cannot be loaded makes \<^verbatim>\<open>Object.assign\<close> throw.
\<close>

definition envObj :: "env_files \<Rightarrow> string \<Rightarrow> error + (string \<times> string) list option" where
  "envObj files m =
     (case findExisting files [''.san/'' @ modeEnvName m, modeEnvName m] of
        None \<Rightarrow> Inr None
      | Some envPath \<Rightarrow>
          let localEnv = load files (envPath @ ''.local'');
              defaultEnv = load files envPath
          in (case defaultEnv of
                None \<Rightarrow> Inl (TypeError ''Cannot convert undefined or null to object'')
              | Some d \<Rightarrow>
                  Inr (Some (fold (\<lambda>(k, v) e. AList.update k v e)
                               (case localEnv of Some l \<Rightarrow> AList.clearjunk l | None \<Rightarrow> [])
                               (AList.clearjunk d)))))"

text \<open>Lines 77 to 81: a variable of the files is set when the process has none of
  that name.\<close>

definition setIfAbsent :: "string \<times> string \<Rightarrow> process_env \<Rightarrow> process_env" where
  "setIfAbsent kv penv = (if penv (fst kv) = None then penv(fst kv \<mapsto> JStr (snd kv)) else penv)"

text \<open>Lines 86 to 90: the default is assigned to a variable whose value is
  \<^verbatim>\<open>null\<close>.\<close>

definition setIfNull :: "string \<Rightarrow> string \<Rightarrow> process_env \<Rightarrow> process_env" where
  "setIfNull defaultNodeEnv k penv =
     (if penv k = Some JNull then penv(k \<mapsto> JStr defaultNodeEnv) else penv)"

definition loadEnv :: "env_files \<Rightarrow> string \<Rightarrow> process_env \<Rightarrow> error + process_env" where
  "loadEnv files m penv =
     (case envObj files m of
        Inl e \<Rightarrow> Inl e
      | Inr None \<Rightarrow> Inr penv
      | Inr (Some vars) \<Rightarrow>
          let penv1 = fold setIfAbsent vars penv in
          if m \<noteq> [] then
            (let defaultNodeEnv = (if m = ''production'' then m else ''development'')
             in Inr (fold (setIfNull defaultNodeEnv) [''NODE_ENV'', ''BABEL_ENV''] penv1))
          else Inr penv1)"

text \<open>What the env files give for a variable, if anything.\<close>

definition fileValue :: "env_files \<Rightarrow> string \<Rightarrow> string \<Rightarrow> string option" where
  "fileValue files m k =
     (case envObj files m of Inr (Some vars) \<Rightarrow> map_of vars k | _ \<Rightarrow> None)"

section \<open>A concrete project\<close>



text \<open>A project whose \<^verbatim>\<open>.env.production\<close> sets \<^verbatim>\<open>NODE_ENV\<close>.\<close>

definition example_files :: env_files where
  "example_files =
     \<lparr> findExisting = (\<lambda>ps. if ''.env.production'' \<in> set ps then Some ''.env.production'' else None),
       load = (\<lambda>f. if f = ''.env.production'' then Some [(''NODE_ENV'', ''test'')] else None) \<rparr>"

text \<open>
  A module cache: \<^verbatim>\<open>./a\<close> exports a plugin without an id, \<^verbatim>\<open>./b\<close> a plugin with
  one as its default export, \<^verbatim>\<open>./broken\<close> an object without \<^verbatim>\<open>apply\<close>; nothing
  else can be loaded. The built-in plugins are objects named after their ids.
\<close>

definition example_modules :: modules where
  "example_modules =
     [''./a'' \<mapsto> JObj [(''apply'', JFun 7)],
      ''./b'' \<mapsto> JObj [(''default'', JObj [(''id'', JStr ''b''), (''apply'', JFun 8)])],
      ''./broken'' \<mapsto> JObj [(''id'', JStr ''broken'')]]"

definition example_builtin :: "string \<Rightarrow> jsval" where
  "example_builtin name = JObj [(''id'', JStr (''built-in:'' @ name)), (''apply'', JFun 2)]"

text \<open>
  A service with one plugin, whose \<^verbatim>\<open>apply\<close> (identity 5) registers the command
  \<^verbatim>\<open>build <entry>\<close> with handler 9, two flag handlers 10 and 11 for it, and a chain
  callback; the project options bring a raw callback. The argument check accepts
  everything.
\<close>

definition example_plugin_env :: plugin_env where
  "example_plugin_env =
     \<lparr> argsert = (\<lambda>spec args. None),
       applyPlugin = (\<lambda>f projectOptions options.
          if f = 5 then
            [RegisterCommand (JStr ''build <entry>'') (JFun 9),
             RegisterCommandFlag (JStr ''build'') (JObj [(''watch'', JBool False)]) (JFun 10),
             RegisterCommandFlag (JStr ''build'') (JObj [(''analyze'', JBool False)]) (JFun 11),
             ChainWebpack (JFun 12)]
          else []) \<rparr>"

definition example_service :: service where
  "example_service =
     \<lparr> initialized = False,
       mode = JUndefined,
       projectOptions = JObj [(''configureWebpack'', JFun 13)],
       plugins = [JObj [(''id'', JStr ''p''), (''apply'', JFun 5)]],
       webpackChainFns = [],
       webpackRawConfigFns = [],
       registeredCommands = [],
       registeredCommandFlags = [],
       registeredCommandHandlers = [],
       modules = example_modules,
       logged = [] \<rparr>"

definition example_initialized :: service where
  "example_initialized =
     example_service
       \<lparr> initialized := True,
         mode := JStr ''production'',
         webpackChainFns := [JFun 12],
         webpackRawConfigFns := [JFun 13],
         registeredCommands :=
           [(''build'', JObj [(''command'', JStr ''build <entry>''), (''handler'', JFun 9),
                              (''description'', JBool False), (''builder'', JObj []),
                              (''middlewares'', JArr [])])],
         registeredCommandFlags :=
           [(''build'', JObj [(''watch'', JBool False), (''analyze'', JBool False)])],
         registeredCommandHandlers := [(''build'', [JFun 10, JFun 11])] \<rparr>"

text \<open>
  A parser that always dispatches, with the raw arguments as the parsed ones, and
  handlers that count their calls in the world: the flag handler 10 returns
  \<^verbatim>\<open>true\<close>, the flag handler 11 returns what \<open>second\<close> says, every other function
  returns \<^verbatim>\<open>undefined\<close>.
\<close>

definition example_parser :: parser where
  "example_parser command builder args = Some (JArr args)"

definition example_caller :: "jsval \<Rightarrow> nat caller" where
  "example_caller second f argv w =
     (if f = 10 then (Returns (JBool True), Suc w)
      else if f = 11 then (Returns second, Suc w)
      else (Returns JUndefined, Suc w))"

text \<open>
  A webpack setup: the chain materializes to a config whose first rule and its
  nested rule carry names; one raw callback returns an object to merge; the merge
  gives a config with fresh rule objects, without the names, and one more rule.
\<close>

definition example_original :: jsval where
  "example_original =
     JObj [(''module'', JObj [(''rules'', JArr
        [JObj [(''test'', JStr ''js''),
               (''oneOf'', JArr [JObj [(''use'', JStr ''babel''),
                                       (''__ruleNames'', JArr [JStr ''js'', JStr ''babel''])]]),
               (''__ruleNames'', JArr [JStr ''js''])]])])]"

definition example_merged :: jsval where
  "example_merged =
     JObj [(''module'', JObj [(''rules'', JArr
        [JObj [(''test'', JStr ''js''), (''oneOf'', JArr [JObj [(''use'', JStr ''babel'')]])],
         JObj [(''test'', JStr ''css'')]])]),
           (''mode'', JStr ''production'')]"

definition example_webpack_env :: webpack_env where
  "example_webpack_env =
     \<lparr> newConfig = JObj [],
       callChain = (\<lambda>f chain. Inr chain),
       toConfig = (\<lambda>chain. Inr example_original),
       callRaw = (\<lambda>f config. Inr (JObj [(''mode'', JStr ''production'')], config)),
       webpackMerge = (\<lambda>config res. example_merged) \<rparr>"

section \<open>Reading and writing properties\<close>


lemma get_set_prop_other: "k' \<noteq> k \<Longrightarrow> get_prop (set_prop c k v) k' = get_prop c k'"
  by (cases c) (simp_all add: update_conv')



section \<open>Properties of command-name normalization\<close>






















section \<open>Properties of the public-path normalization\<close>









section \<open>Properties of the config merge\<close>


lemma defaultsDeep_obj_obj: "defaultsDeep (JObj ps) (JObj qs) = JObj (mergeProps ps qs)"
  by simp























section \<open>Properties of plugin resolution\<close>

lemma isPlugin_obj: "isPlugin v \<Longrightarrow> \<exists>ps. v = JObj ps"
  by (cases v) (simp_all add: isPlugin_def)

lemma pluginOf_withId:
  assumes "isPlugin (pluginOf m)"
  shows "pluginOf (withId m p) = set_prop (pluginOf m) ''id'' p"
proof (cases "truthy (get_prop m ''default'')")
  case True
  then obtain mps where m: "m = JObj mps" by (cases m) simp_all
  obtain pps where pl: "get_prop m ''default'' = JObj pps"
    using isPlugin_obj [OF assms] True by (auto simp: pluginOf_def)
  have "withId m p = set_prop m ''default'' (set_prop (JObj pps) ''id'' p)"
    using True pl by (simp add: withId_def)
  then have "get_prop (withId m p) ''default'' = set_prop (JObj pps) ''id'' p"
    unfolding m by (simp add: update_conv')
  then show ?thesis using True pl by (simp add: pluginOf_def)
next
  case False
  then have pm: "pluginOf m = m" by (simp add: pluginOf_def)
  then obtain mps where m: "m = JObj mps" using isPlugin_obj [OF assms] by auto
  have w: "withId m p = set_prop m ''id'' p" using False by (simp add: withId_def)
  have "get_prop (withId m p) ''default'' = get_prop m ''default''"
    unfolding w by (simp add: get_set_prop_other)
  then show ?thesis using False w pm by (simp add: pluginOf_def)
qed

lemma isPlugin_set_id: "isPlugin v \<Longrightarrow> isPlugin (set_prop v ''id'' p)"
  by (cases v) (simp_all add: isPlugin_def update_conv')

lemma get_id_set_id: "isPlugin v \<Longrightarrow> get_prop (set_prop v ''id'' p) ''id'' = p"
  by (cases v) (simp_all add: isPlugin_def update_conv')

lemma withId_not_nullish: "isPlugin (pluginOf m) \<Longrightarrow> \<not> nullish (withId m p)"
proof -
  assume a: "isPlugin (pluginOf m)"
  show ?thesis
  proof (cases "truthy (get_prop m ''default'')")
    case True
    then obtain mps where "m = JObj mps" by (cases m) simp_all
    then show ?thesis using True by (simp add: withId_def)
  next
    case False
    then have "pluginOf m = m" by (simp add: pluginOf_def)
    then obtain mps where "m = JObj mps" using isPlugin_obj [OF a] by auto
    then show ?thesis using False by (simp add: withId_def)
  qed
qed

text \<open>What resolving a reference does, case by case.\<close>

lemma resolvePlugin_string:
  assumes "splitReference p0 = (opts, JStr s)"
  shows "resolvePlugin p0 ms =
     (case requireModule ms s of
        None \<Rightarrow> (Inl (SError ''Require plugin is valid : '' (JStr s)), ms)
      | Some m \<Rightarrow>
          if nullish m \<or> \<not> isPlugin (pluginOf m)
          then (Inl (SError ''Require plugin is valid : '' (JStr s)), ms)
          else if \<not> truthy (get_prop (pluginOf m) ''id'')
          then (Inr (if truthy opts then JArr [pluginOf (withId m (JStr s)), opts]
                     else pluginOf (withId m (JStr s))),
                ms(s \<mapsto> withId m (JStr s)))
          else (Inr (if truthy opts then JArr [pluginOf m, opts] else pluginOf m), ms))"
  using assms by (simp add: resolvePlugin_def split: option.splits)

lemma resolvePlugin_other:
  assumes "splitReference p0 = (opts, p)" "\<forall>s. p \<noteq> JStr s"
  shows "resolvePlugin p0 ms = (fst (resolvePlugin p0 Map.empty), ms)"
  using assms by (cases p) (simp_all add: resolvePlugin_def)

lemma resolvePlugin_settles:
  assumes "resolvePlugin p0 ms = (Inr r, ms1)"
  shows "resolvePlugin p0 ms1 = (Inr r, ms1)"
proof -
  obtain opts p where sp: "splitReference p0 = (opts, p)" by (cases "splitReference p0")
  show ?thesis
  proof (cases "\<exists>s. p = JStr s")
    case False
    then have "\<And>ms. resolvePlugin p0 ms = (fst (resolvePlugin p0 Map.empty), ms)"
      using sp resolvePlugin_other by blast
    with assms show ?thesis by (metis prod.inject)
  next
    case True
    then obtain s where p: "p = JStr s" by blast
    note r = resolvePlugin_string [OF sp [unfolded p]]
    from assms obtain m where m: "requireModule ms s = Some m" "\<not> nullish m" "isPlugin (pluginOf m)"
      unfolding r by (auto split: option.splits if_splits)
    have s: "s \<noteq> []" using m(1) by (auto simp: requireModule_def split: if_splits)
    show ?thesis
    proof (cases "truthy (get_prop (pluginOf m) ''id'')")
      case True
      with assms m show ?thesis unfolding r by simp
    next
      case False
      let ?m = "withId m (JStr s)"
      from assms m False have ms1: "ms1 = ms(s \<mapsto> ?m)"
        and res: "r = (if truthy opts then JArr [pluginOf ?m, opts] else pluginOf ?m)"
        unfolding r by auto
      have req: "requireModule ms1 s = Some ?m" using s ms1 by (simp add: requireModule_def)
      have pl: "pluginOf ?m = set_prop (pluginOf m) ''id'' (JStr s)"
        using m(3) by (rule pluginOf_withId)
      have "isPlugin (pluginOf ?m)" unfolding pl using m(3) by (rule isPlugin_set_id)
      moreover have "truthy (get_prop (pluginOf ?m) ''id'')"
        unfolding pl using get_id_set_id [OF m(3)] s by simp
      moreover have "\<not> nullish ?m" using m(3) by (rule withId_not_nullish)
      ultimately show ?thesis
        unfolding resolvePlugin_string [OF sp [unfolded p], of ms1] req using res by simp
    qed
  qed
qed

lemma resolvePlugin_store:
  assumes "resolvePlugin q ms = (x, ms2)"
  shows "ms2 = ms \<or>
    (\<exists>s m. s \<noteq> [] \<and> ms s = Some m \<and> \<not> nullish m \<and> isPlugin (pluginOf m)
        \<and> \<not> truthy (get_prop (pluginOf m) ''id'') \<and> ms2 = ms(s \<mapsto> withId m (JStr s)))"
proof -
  obtain opts p where sp: "splitReference q = (opts, p)" by (cases "splitReference q")
  show ?thesis
  proof (cases "\<exists>s. p = JStr s")
    case False
    then have "resolvePlugin q ms = (fst (resolvePlugin q Map.empty), ms)"
      using sp resolvePlugin_other by blast
    with assms show ?thesis by simp
  next
    case True
    then obtain s where p: "p = JStr s" by blast
    note r = resolvePlugin_string [OF sp [unfolded p], of ms]
    show ?thesis
    proof (cases "requireModule ms s")
      case None
      with assms show ?thesis unfolding r by simp
    next
      case (Some m)
      then have "s \<noteq> []" "ms s = Some m"
        by (auto simp: requireModule_def split: if_splits)
      with assms Some show ?thesis unfolding r by (auto split: if_splits)
    qed
  qed
qed

lemma requireModule_upd_other: "s \<noteq> s2 \<Longrightarrow> requireModule (ms(s2 \<mapsto> v)) s = requireModule ms s"
  by (simp add: requireModule_def)

lemma resolvePlugin_stays_settled:
  assumes settled: "resolvePlugin p0 ms = (Inr r, ms)"
    and other: "resolvePlugin q ms = (x, ms2)"
  shows "resolvePlugin p0 ms2 = (Inr r, ms2)"
proof -
  from resolvePlugin_store [OF other]
  consider "ms2 = ms"
    | s2 m2 where "s2 \<noteq> []" "ms s2 = Some m2" "\<not> nullish m2" "isPlugin (pluginOf m2)"
        "\<not> truthy (get_prop (pluginOf m2) ''id'')" "ms2 = ms(s2 \<mapsto> withId m2 (JStr s2))"
    by blast
  then show ?thesis
  proof cases
    case 1
    with settled show ?thesis by simp
  next
    case 2
    obtain opts p where sp: "splitReference p0 = (opts, p)" by (cases "splitReference p0")
    show ?thesis
    proof (cases "\<exists>s. p = JStr s")
      case False
      then have "\<And>ms. resolvePlugin p0 ms = (fst (resolvePlugin p0 Map.empty), ms)"
        using sp resolvePlugin_other by blast
      with settled show ?thesis by (metis prod.inject)
    next
      case True
      then obtain s where p: "p = JStr s" by blast
      note r = resolvePlugin_string [OF sp [unfolded p]]
      from settled obtain m where m: "requireModule ms s = Some m" "\<not> nullish m" "isPlugin (pluginOf m)"
        unfolding r by (auto split: option.splits if_splits)
      then have s: "s \<noteq> []" "ms s = Some m"
        by (auto simp: requireModule_def split: if_splits)
      have fixed: "\<not> truthy (get_prop (pluginOf m) ''id'') \<Longrightarrow> withId m (JStr s) = m"
      proof -
        assume "\<not> truthy (get_prop (pluginOf m) ''id'')"
        with settled m have "ms(s \<mapsto> withId m (JStr s)) = ms" unfolding r by simp
        then have "(ms(s \<mapsto> withId m (JStr s))) s = ms s" by simp
        with s show ?thesis by simp
      qed
      have id: "truthy (get_prop (pluginOf m) ''id'')"
      proof (rule ccontr)
        assume f: "\<not> truthy (get_prop (pluginOf m) ''id'')"
        have "get_prop (pluginOf (withId m (JStr s))) ''id'' = JStr s"
          using pluginOf_withId [OF m(3)] get_id_set_id [OF m(3)] by simp
        with fixed [OF f] s(1) f show False by simp
      qed
      have "s \<noteq> s2" using id 2(2,5) s(2) by auto
      then have "requireModule ms2 s = Some m"
        using m(1) 2(6) by (simp add: requireModule_upd_other)
      then have "resolvePlugin p0 ms2
          = (Inr (if truthy opts then JArr [pluginOf m, opts] else pluginOf m), ms2)"
        unfolding r using m id by simp
      moreover have "r = (if truthy opts then JArr [pluginOf m, opts] else pluginOf m)"
        using settled m id unfolding r by simp
      ultimately show ?thesis by simp
    qed
  qed
qed

lemma unusable_stays:
  assumes "unusable ms s" and "resolvePlugin q ms = (x, ms2)"
  shows "unusable ms2 s"
proof -
  from resolvePlugin_store [OF assms(2)]
  consider "ms2 = ms"
    | s2 m2 where "s2 \<noteq> []" "ms s2 = Some m2" "\<not> nullish m2" "isPlugin (pluginOf m2)"
        "ms2 = ms(s2 \<mapsto> withId m2 (JStr s2))"
    by blast
  then show ?thesis
  proof cases
    case 1
    with assms(1) show ?thesis by simp
  next
    case 2
    have "s \<noteq> s2"
    proof
      assume "s = s2"
      with 2 assms(1) show False
        by (simp add: unusable_def requireModule_def isPlugin_def)
    qed
    then show ?thesis
      using assms(1) 2(5) by (simp add: unusable_def requireModule_upd_other)
  qed
qed

lemma mapResolve_keeps_settled:
  "resolvePlugin p0 ms = (Inr r, ms) \<Longrightarrow> mapResolve qs ms = (x, ms2) \<Longrightarrow>
   resolvePlugin p0 ms2 = (Inr r, ms2)"
proof (induction qs arbitrary: ms x ms2)
  case Nil
  then show ?case by simp
next
  case (Cons q qs)
  obtain y ms1 where q: "resolvePlugin q ms = (y, ms1)" by (cases "resolvePlugin q ms")
  have s1: "resolvePlugin p0 ms1 = (Inr r, ms1)"
    using Cons.prems(1) q by (rule resolvePlugin_stays_settled)
  show ?case
  proof (cases y)
    case (Inl e)
    with Cons.prems(2) q have "ms2 = ms1" by simp
    with s1 show ?thesis by simp
  next
    case (Inr v)
    obtain z ms3 where rest: "mapResolve qs ms1 = (z, ms3)" by (cases "mapResolve qs ms1")
    with Cons.prems(2) q Inr have "ms2 = ms3" by (cases z) simp_all
    with Cons.IH [OF s1 rest] show ?thesis by simp
  qed
qed

lemma mapResolve_keeps_unusable:
  "unusable ms s \<Longrightarrow> mapResolve qs ms = (x, ms2) \<Longrightarrow> unusable ms2 s"
proof (induction qs arbitrary: ms x ms2)
  case Nil
  then show ?case by simp
next
  case (Cons q qs)
  obtain y ms1 where q: "resolvePlugin q ms = (y, ms1)" by (cases "resolvePlugin q ms")
  have u1: "unusable ms1 s" using Cons.prems(1) q by (rule unusable_stays)
  show ?case
  proof (cases y)
    case (Inl e)
    with Cons.prems(2) q have "ms2 = ms1" by simp
    with u1 show ?thesis by simp
  next
    case (Inr v)
    obtain z ms3 where rest: "mapResolve qs ms1 = (z, ms3)" by (cases "mapResolve qs ms1")
    with Cons.prems(2) q Inr have "ms2 = ms3" by (cases z) simp_all
    with Cons.IH [OF u1 rest] show ?thesis by simp
  qed
qed

lemma mapResolve_settles:
  "mapResolve refs ms = (Inr rs, ms1) \<Longrightarrow>
   list_all2 (\<lambda>p r. resolvePlugin p ms1 = (Inr r, ms1)) refs rs"
proof (induction refs arbitrary: ms rs ms1)
  case Nil
  then show ?case by simp
next
  case (Cons p ps)
  obtain y ms0 where p: "resolvePlugin p ms = (y, ms0)" by (cases "resolvePlugin p ms")
  obtain z ms3 where rest: "mapResolve ps ms0 = (z, ms3)" by (cases "mapResolve ps ms0")
  from Cons.prems p rest obtain r rs' where y: "y = Inr r" and z: "z = Inr rs'"
    and rs: "rs = r # rs'" and ms: "ms1 = ms3"
    by (cases y; cases z) auto
  have "resolvePlugin p ms0 = (Inr r, ms0)"
    using p y resolvePlugin_settles by blast
  then have "resolvePlugin p ms3 = (Inr r, ms3)"
    using rest by (rule mapResolve_keeps_settled)
  moreover have "list_all2 (\<lambda>p r. resolvePlugin p ms3 = (Inr r, ms3)) ps rs'"
    using Cons.IH rest z by blast
  ultimately show ?case using rs ms by simp
qed

lemma mapResolve_settled:
  "list_all2 (\<lambda>p r. resolvePlugin p ms = (Inr r, ms)) refs rs \<Longrightarrow>
   mapResolve refs ms = (Inr rs, ms)"
  by (induction refs rs rule: list_all2_induct) simp_all

lemma resolvePlugin_unusable:
  assumes "unusable ms s" and "refers_to ref s"
  shows "resolvePlugin ref ms = (Inl (SError ''Require plugin is valid : '' (JStr s)), ms)"
proof -
  obtain opts where sp: "splitReference ref = (opts, JStr s)"
    using assms(2) by (cases "splitReference ref") (simp add: refers_to_def)
  show ?thesis
    unfolding resolvePlugin_string [OF sp] using assms(1)
    by (auto simp: unusable_def isPlugin_def split: option.splits)
qed

lemma mapResolve_unusable:
  "unusable ms s \<Longrightarrow> refers_to ref s \<Longrightarrow> ref \<in> set refs \<Longrightarrow>
   \<exists>e ms1. mapResolve refs ms = (Inl e, ms1)"
proof (induction refs arbitrary: ms)
  case Nil
  then show ?case by simp
next
  case (Cons p ps)
  obtain y ms0 where p: "resolvePlugin p ms = (y, ms0)" by (cases "resolvePlugin p ms")
  show ?case
  proof (cases y)
    case (Inl e)
    with p show ?thesis by simp
  next
    case (Inr r)
    have "ref \<noteq> p"
      using resolvePlugin_unusable [OF Cons.prems(1,2)] p Inr by auto
    then have "ref \<in> set ps" using Cons.prems(3) by simp
    moreover have "unusable ms0 s" using Cons.prems(1) p by (rule unusable_stays)
    ultimately obtain e ms1 where "mapResolve ps ms0 = (Inl e, ms1)"
      using Cons.IH Cons.prems(2) by blast
    with p Inr show ?thesis by simp
  qed
qed

lemma mapResolve_first_failure:
  "mapResolve pre ms0 = (Inr rs, ms) \<Longrightarrow> resolvePlugin ref ms = (Inl e, ms) \<Longrightarrow>
   mapResolve (pre @ ref # post) ms0 = (Inl e, ms)"
proof (induction pre arbitrary: ms0 rs)
  case Nil
  then show ?case by simp
next
  case (Cons p ps)
  obtain y ms1 where p: "resolvePlugin p ms0 = (y, ms1)" by (cases "resolvePlugin p ms0")
  obtain z ms3 where rest: "mapResolve ps ms1 = (z, ms3)" by (cases "mapResolve ps ms1")
  from Cons.prems(1) p rest obtain r rs' where y: "y = Inr r" and z: "z = Inr rs'" and ms: "ms = ms3"
    by (cases y; cases z) auto
  have "mapResolve (ps @ ref # post) ms1 = (Inl e, ms)"
    using Cons.IH [of ms1 rs'] rest z ms Cons.prems(2) by simp
  with p y show ?case by simp
qed

text \<open>
  C4. When resolvePlugins returns a list, the list is the built-in plugins (when
  enabled: base, css, app, optimization, babel, in this order) followed by one entry
  for each reference, in the order of the references: the entry at a position is what
  the reference at that position resolves to. Calling resolvePlugins again with the
  same input returns the same list and changes nothing.
\<close>

theorem resolvePlugins_order_stable:
  assumes "resolvePlugins builtin refs0 useBuiltInPlugin ms = (Inr ps, ms1)"
  shows "\<exists>rs.
    ps = (if useBuiltInPlugin = JUndefined \<or> truthy useBuiltInPlugin
          then [builtin ''base'', builtin ''css'', builtin ''app'', builtin ''optimization'',
                builtin ''babel'']
          else []) @ rs
    \<and> list_all2 (\<lambda>ref r. resolvePlugin ref ms1 = (Inr r, ms1))
         (case refs0 of JArr refs \<Rightarrow> refs | _ \<Rightarrow> []) rs
    \<and> resolvePlugins builtin refs0 useBuiltInPlugin ms1 = (Inr ps, ms1)"
proof -
  let ?b = "if useBuiltInPlugin = JUndefined \<or> truthy useBuiltInPlugin
            then map builtin BUILDIN_PLUGINS else []"
  let ?refs = "case refs0 of JArr refs \<Rightarrow> refs | _ \<Rightarrow> []"
  have b: "?b = (if useBuiltInPlugin = JUndefined \<or> truthy useBuiltInPlugin
          then [builtin ''base'', builtin ''css'', builtin ''app'', builtin ''optimization'',
                builtin ''babel'']
          else [])"
    by (simp add: BUILDIN_PLUGINS_def)
  show ?thesis
  proof (cases "?refs = []")
    case True
    with assms have "ps = ?b @ []" "ms1 = ms"
      by (simp_all add: resolvePlugins_def Let_def)
    moreover have "resolvePlugins builtin refs0 useBuiltInPlugin ms = (Inr (?b @ []), ms)"
      using True by (simp add: resolvePlugins_def Let_def)
    ultimately show ?thesis using True b by (intro exI [of _ "[]"]) simp
  next
    case False
    with assms obtain rs where m: "mapResolve ?refs ms = (Inr rs, ms1)" and ps: "ps = ?b @ rs"
      by (auto simp: resolvePlugins_def Let_def split: prod.splits sum.splits)
    have settled: "list_all2 (\<lambda>ref r. resolvePlugin ref ms1 = (Inr r, ms1)) ?refs rs"
      using m by (rule mapResolve_settles)
    then have "mapResolve ?refs ms1 = (Inr rs, ms1)" by (rule mapResolve_settled)
    then have "resolvePlugins builtin refs0 useBuiltInPlugin ms1 = (Inr ps, ms1)"
      using False ps by (simp add: resolvePlugins_def Let_def)
    with settled ps b show ?thesis by (intro exI [of _ rs]) simp
  qed
qed

lemma example_resolvePlugins:
  "resolvePlugins example_builtin
      (JArr [JStr ''./a'', JArr [JStr ''./b'', JObj [(''x'', JNum 1)]]]) JUndefined example_modules
   = (Inr [example_builtin ''base'', example_builtin ''css'', example_builtin ''app'',
           example_builtin ''optimization'', example_builtin ''babel'',
           JObj [(''apply'', JFun 7), (''id'', JStr ''./a'')],
           JArr [JObj [(''id'', JStr ''b''), (''apply'', JFun 8)], JObj [(''x'', JNum 1)]]],
      example_modules(''./a'' \<mapsto> JObj [(''apply'', JFun 7), (''id'', JStr ''./a'')]))"
  by (simp add: resolvePlugins_def BUILDIN_PLUGINS_def resolvePlugin_def splitReference_def
      requireModule_def isPlugin_def pluginOf_def withId_def example_modules_def)

theorem resolvePlugins_order_stable_witness:
  "resolvePlugins example_builtin
      (JArr [JStr ''./a'', JArr [JStr ''./b'', JObj [(''x'', JNum 1)]]]) JUndefined
      (example_modules(''./a'' \<mapsto> JObj [(''apply'', JFun 7), (''id'', JStr ''./a'')]))
   = (Inr [example_builtin ''base'', example_builtin ''css'', example_builtin ''app'',
           example_builtin ''optimization'', example_builtin ''babel'',
           JObj [(''apply'', JFun 7), (''id'', JStr ''./a'')],
           JArr [JObj [(''id'', JStr ''b''), (''apply'', JFun 8)], JObj [(''x'', JNum 1)]]],
      example_modules(''./a'' \<mapsto> JObj [(''apply'', JFun 7), (''id'', JStr ''./a'')]))"
  using resolvePlugins_order_stable [OF example_resolvePlugins] by blast

text \<open>
  C7. For a string reference (bare, or paired with options) that cannot be loaded or
  whose module stands for an object without a callable \<^verbatim>\<open>apply\<close>: resolving it
  throws the SError whose message ends with the reference string, and changes
  nothing; resolvePlugins on any list that holds it throws and returns no list, and
  when every reference before it resolves the error is the one that names it;
  addPlugin with it throws that error and leaves the service, its plugin list
  included, as it was.
\<close>

theorem resolvePlugin_unusable_reference:
  assumes "unusable ms s" and "refers_to ref s"
  shows "resolvePlugin ref ms = (Inl (SError ''Require plugin is valid : '' (JStr s)), ms)
    \<and> (\<forall>refs. ref \<in> set refs \<longrightarrow>
          (\<exists>e ms1. resolvePlugins builtin (JArr refs) useBuiltInPlugin ms = (Inl e, ms1)))
    \<and> (\<forall>pre post ms0 rs. mapResolve pre ms0 = (Inr rs, ms) \<longrightarrow>
          resolvePlugins builtin (JArr (pre @ ref # post)) useBuiltInPlugin ms0
            = (Inl (SError ''Require plugin is valid : '' (JStr s)), ms))
    \<and> (\<forall>svc opts. modules svc = ms \<longrightarrow>
          addPlugin (JStr s) opts svc = (Some (SError ''Require plugin is valid : '' (JStr s)), svc))"
proof (intro conjI allI impI)
  show one: "resolvePlugin ref ms = (Inl (SError ''Require plugin is valid : '' (JStr s)), ms)"
    using assms by (rule resolvePlugin_unusable)
  show "\<exists>e ms1. resolvePlugins builtin (JArr refs) useBuiltInPlugin ms = (Inl e, ms1)"
    if mem: "ref \<in> set refs" for refs
  proof -
    obtain e ms1 where "mapResolve refs ms = (Inl e, ms1)"
      using mapResolve_unusable [OF assms mem] by blast
    moreover have "refs \<noteq> []" using mem by auto
    ultimately show ?thesis by (simp add: resolvePlugins_def Let_def)
  qed
  show "resolvePlugins builtin (JArr (pre @ ref # post)) useBuiltInPlugin ms0
            = (Inl (SError ''Require plugin is valid : '' (JStr s)), ms)"
    if "mapResolve pre ms0 = (Inr rs, ms)" for pre post ms0 rs
    using mapResolve_first_failure [OF that one, of post] by (simp add: resolvePlugins_def Let_def)
  show "addPlugin (JStr s) opts svc = (Some (SError ''Require plugin is valid : '' (JStr s)), svc)"
    if "modules svc = ms" for svc opts
  proof -
    let ?o = "if opts = JUndefined then JObj [] else opts"
    have "refers_to (JArr [JStr s, ?o]) s" by (simp add: refers_to_def splitReference_def)
    with assms(1) have "resolvePlugin (JArr [JStr s, ?o]) ms
        = (Inl (SError ''Require plugin is valid : '' (JStr s)), ms)"
      by (rule resolvePlugin_unusable)
    then show ?thesis using that by (simp add: addPlugin_def Let_def)
  qed
qed

theorem resolvePlugin_unusable_reference_witness:
  "resolvePlugin (JArr [JStr ''./broken'', JObj []]) example_modules
     = (Inl (SError ''Require plugin is valid : '' (JStr ''./broken'')), example_modules)
   \<and> (\<exists>e ms1. resolvePlugins example_builtin (JArr [JStr ''./a'', JArr [JStr ''./broken'', JObj []]])
         JUndefined example_modules = (Inl e, ms1))"
proof -
  have u: "unusable example_modules ''./broken''"
    by (simp add: unusable_def requireModule_def example_modules_def pluginOf_def)
  have r: "refers_to (JArr [JStr ''./broken'', JObj []]) ''./broken''"
    by (simp add: refers_to_def splitReference_def)
  have "JArr [JStr ''./broken'', JObj []] \<in> set [JStr ''./a'', JArr [JStr ''./broken'', JObj []]]"
    by simp
  with resolvePlugin_unusable_reference [OF u r, of example_builtin JUndefined]
  show ?thesis by blast
qed

section \<open>Properties of initialization\<close>

lemma storeCommand_initialized:
  "storeCommand c d b h m s = (r, s1) \<Longrightarrow> initialized s1 = initialized s"
  by (auto simp: storeCommand_def Let_def split: jsval.splits)

lemma registerCommand_initialized:
  "registerCommand env name ym s = (r, s1) \<Longrightarrow> initialized s1 = initialized s"
  by (auto simp: registerCommand_def split: option.splits if_splits dest: storeCommand_initialized)

lemma registerCommandFlag_initialized:
  "registerCommandFlag env c f h s = (r, s1) \<Longrightarrow> initialized s1 = initialized s"
  by (auto simp: registerCommandFlag_def Let_def split: option.splits jsval.splits)

lemma addPlugin_initialized:
  "addPlugin name opts s = (r, s1) \<Longrightarrow> initialized s1 = initialized s"
  by (auto simp: addPlugin_def Let_def split: prod.splits sum.splits)

lemma performCall_initialized:
  "performCall env c s = (r, s1) \<Longrightarrow> initialized s1 = initialized s"
  by (cases c)
     (auto dest: registerCommand_initialized registerCommandFlag_initialized addPlugin_initialized)

lemma performCalls_initialized:
  "performCalls env cs s = (r, s1) \<Longrightarrow> initialized s1 = initialized s"
proof (induction cs arbitrary: s)
  case Nil
  then show ?case by simp
next
  case (Cons c cs)
  obtain r0 s0 where c: "performCall env c s = (r0, s0)" by (cases "performCall env c s")
  then have i: "initialized s0 = initialized s" by (rule performCall_initialized)
  show ?case
  proof (cases r0)
    case None
    with Cons.prems c have "performCalls env cs s0 = (r, s1)" by simp
    with Cons.IH i show ?thesis by simp
  next
    case (Some e)
    with Cons.prems c i show ?thesis by simp
  qed
qed

lemma initPlugin_initialized:
  "initPlugin env p s = (r, s1) \<Longrightarrow> initialized s1 = initialized s"
  by (auto simp: initPlugin_def Let_def split: prod.splits if_splits jsval.splits
      dest: performCalls_initialized)

lemma initPlugins_initialized:
  "initPlugins env ps s = (r, s1) \<Longrightarrow> initialized s1 = initialized s"
proof (induction ps arbitrary: s)
  case Nil
  then show ?case by simp
next
  case (Cons p ps)
  obtain r0 s0 where p: "initPlugin env p s = (r0, s0)" by (cases "initPlugin env p s")
  then have i: "initialized s0 = initialized s" by (rule initPlugin_initialized)
  show ?case
  proof (cases r0)
    case None
    with Cons.prems p have "initPlugins env ps s0 = (r, s1)" by simp
    with Cons.IH i show ?thesis by simp
  next
    case (Some e)
    with Cons.prems p i show ?thesis by simp
  qed
qed

lemma init_sets_initialized:
  assumes "init env m s = (r, s1)"
  shows "initialized s1"
proof (cases "initialized s")
  case True
  with assms show ?thesis by (simp add: init_def)
next
  case False
  let ?s = "s\<lparr>initialized := True, mode := m\<rparr>"
  obtain r0 s2 where p: "initPlugins env (plugins ?s) ?s = (r0, s2)"
    by (cases "initPlugins env (plugins ?s) ?s")
  then have i: "initialized s2" using initPlugins_initialized [OF p] by simp
  show ?thesis
  proof (cases r0)
    case (Some e)
    with assms False p i show ?thesis by (simp add: init_def Let_def)
  next
    case None
    with assms False p i show ?thesis
      by (auto simp: init_def Let_def split: if_splits)
  qed
qed

text \<open>
  C2. After an init call (one that returned, and also one that threw, since the flag
  is set before the plugins are applied), a second init call with any mode returns
  without an error and leaves the whole service as the first call left it: the
  registered commands, flags and flag handlers, the plugin list, the two callback
  lists and the stored mode.
\<close>

theorem init_idempotent:
  assumes "init env m1 s = (r, s1)"
  shows "init env m2 s1 = (None, s1)"
  using init_sets_initialized [OF assms] by (simp add: init_def)

lemma example_init:
  "init example_plugin_env (JStr ''production'') example_service = (None, example_initialized)"
  by (simp add: init_def initPlugin_def element_def example_plugin_env_def example_service_def
      example_initialized_def registerCommand_def storeCommand_def registerCommandFlag_def
      emptyHandler_def js_or_def object_assign_def Let_def
      getCommandName_def trim_def sep_here_def lookahead_def is_ws_def)

theorem init_idempotent_witness:
  "init example_plugin_env (JStr ''production'') example_service = (None, example_initialized)
   \<and> init example_plugin_env (JStr ''development'') example_initialized = (None, example_initialized)
   \<and> mode example_initialized = JStr ''production''
   \<and> map_of (registeredCommandHandlers example_initialized) ''build'' = Some [JFun 10, JFun 11]"
  using init_idempotent [OF example_init, of "JStr ''development''"] example_init
  by (simp add: example_initialized_def)

section \<open>Properties of command dispatch\<close>

lemma functionsOf_Cons_fun: "functionsOf (JFun f # hs) = f # functionsOf hs"
  by (simp add: functionsOf_def)

lemma functionsOf_Cons_other: "\<forall>f. h \<noteq> JFun f \<Longrightarrow> functionsOf (h # hs) = functionsOf hs"
  by (cases h) (simp_all add: functionsOf_def)

text \<open>
  The calls the loop adds to the record: either every function entry was called, in
  order, and returned a value other than \<^verbatim>\<open>false\<close>; or the calls are an initial
  part of the function entries, all but the last returned such a value, and the last
  returned \<^verbatim>\<open>false\<close> or threw.
\<close>

lemma runFlagHandlers_trace:
  assumes "doit \<noteq> JBool False"
    and "runFlagHandlers invoke hs argv doit w tr = (res, w1, tr1)"
  shows "\<exists>new. tr1 = tr @ new \<and> list_all (\<lambda>c. call_site c = Flag) new \<and>
    ((list_all returned_non_false new
        \<and> map call_target new = map (\<lambda>f. (f, argv)) (functionsOf hs)
        \<and> (\<exists>d. res = Inr d \<and> d \<noteq> JBool False))
     \<or> (\<exists>good c. new = good @ [c] \<and> list_all returned_non_false good
           \<and> prefix (map call_target new) (map (\<lambda>f. (f, argv)) (functionsOf hs))
           \<and> ((res = Inr (JBool False) \<and> call_outcome c = Returns (JBool False))
                \<or> (\<exists>e. res = Inl (Thrown e) \<and> call_outcome c = Throws e))))"
  using assms
proof (induction hs arbitrary: doit w tr)
  case Nil
  then show ?case by (auto simp: functionsOf_def)
next
  case (Cons h hs)
  show ?case
  proof (cases "\<exists>f. h = JFun f")
    case False
    then have nf: "\<forall>f. h \<noteq> JFun f" by blast
    then have "runFlagHandlers invoke (h # hs) argv doit w tr
        = runFlagHandlers invoke hs argv doit w tr"
      by (cases h) simp_all
    with Cons.prems have "runFlagHandlers invoke hs argv doit w tr = (res, w1, tr1)" by simp
    from Cons.IH [OF Cons.prems(1) this] show ?thesis
      unfolding functionsOf_Cons_other [OF nf] .
  next
    case True
    then obtain f where h: "h = JFun f" by blast
    obtain out w0 where inv: "invoke f argv w = (out, w0)" by (cases "invoke f argv w")
    let ?c = "Call Flag f argv out"
    show ?thesis
    proof (cases out)
      case (Throws e)
      with Cons.prems(2) h inv have "res = Inl (Thrown e)" "tr1 = tr @ [?c]" by simp_all
      then show ?thesis
        using Throws by (intro exI [of _ "[?c]"]) (simp add: functionsOf_Cons_fun h)
    next
      case (Returns v)
      show ?thesis
      proof (cases "v = JBool False")
        case True
        with Cons.prems(2) h inv Returns have "res = Inr (JBool False)" "tr1 = tr @ [?c]"
          by simp_all
        then show ?thesis
          using Returns True by (intro exI [of _ "[?c]"]) (simp add: functionsOf_Cons_fun h)
      next
        case False
        with Cons.prems(2) h inv Returns
        have "runFlagHandlers invoke hs argv v w0 (tr @ [?c]) = (res, w1, tr1)" by simp
        from Cons.IH [OF False this] obtain new where
          tr1: "tr1 = (tr @ [?c]) @ new" and fl: "list_all (\<lambda>c. call_site c = Flag) new"
          and alt: "(list_all returned_non_false new
              \<and> map call_target new = map (\<lambda>f. (f, argv)) (functionsOf hs)
              \<and> (\<exists>d. res = Inr d \<and> d \<noteq> JBool False))
            \<or> (\<exists>good c. new = good @ [c] \<and> list_all returned_non_false good
                 \<and> prefix (map call_target new) (map (\<lambda>f. (f, argv)) (functionsOf hs))
                 \<and> ((res = Inr (JBool False) \<and> call_outcome c = Returns (JBool False))
                      \<or> (\<exists>e. res = Inl (Thrown e) \<and> call_outcome c = Throws e)))"
          by blast
        have ok: "returned_non_false ?c"
          using Returns False by (simp add: returned_non_false_def)
        from alt show ?thesis
        proof
          assume a: "list_all returned_non_false new
              \<and> map call_target new = map (\<lambda>f. (f, argv)) (functionsOf hs)
              \<and> (\<exists>d. res = Inr d \<and> d \<noteq> JBool False)"
          show ?thesis
            using tr1 fl ok a
            by (intro exI [of _ "?c # new"]) (simp add: functionsOf_Cons_fun h)
        next
          assume "\<exists>good c. new = good @ [c] \<and> list_all returned_non_false good
                 \<and> prefix (map call_target new) (map (\<lambda>f. (f, argv)) (functionsOf hs))
                 \<and> ((res = Inr (JBool False) \<and> call_outcome c = Returns (JBool False))
                      \<or> (\<exists>e. res = Inl (Thrown e) \<and> call_outcome c = Throws e))"
          then obtain good c where b: "new = good @ [c]" "list_all returned_non_false good"
            "prefix (map call_target new) (map (\<lambda>f. (f, argv)) (functionsOf hs))"
            "(res = Inr (JBool False) \<and> call_outcome c = Returns (JBool False))
                      \<or> (\<exists>e. res = Inl (Thrown e) \<and> call_outcome c = Throws e)"
            by blast
          have n: "?c # new = (?c # good) @ [c]" using b(1) by simp
          have g: "list_all returned_non_false (?c # good)" using ok b(2) by simp
          have p: "prefix (map call_target (?c # new))
              (map (\<lambda>f. (f, argv)) (functionsOf (h # hs)))"
            using b(3) by (simp add: functionsOf_Cons_fun h)
          have second: "\<exists>good c. ?c # new = good @ [c] \<and> list_all returned_non_false good
                 \<and> prefix (map call_target (?c # new)) (map (\<lambda>f. (f, argv)) (functionsOf (h # hs)))
                 \<and> ((res = Inr (JBool False) \<and> call_outcome c = Returns (JBool False))
                      \<or> (\<exists>e. res = Inl (Thrown e) \<and> call_outcome c = Throws e))"
            using n g p b(4) by blast
          have t: "tr1 = tr @ (?c # new)" using tr1 by simp
          have f: "list_all (\<lambda>c. call_site c = Flag) (?c # new)" using fl by simp
          from t f second show ?thesis by blast
        qed
      qed
    qed
  qed
qed

lemma commandHandler_trace:
  assumes "commandHandler invoke (JArr hs) (JFun oh) argv w = (r, w1, tr)"
  shows "\<exists>fl. list_all (\<lambda>c. call_site c = Flag) fl \<and>
    ((list_all returned_non_false fl
        \<and> map call_target fl = map (\<lambda>f. (f, argv)) (functionsOf hs)
        \<and> (\<exists>out. tr = fl @ [Call Primary oh argv out]))
     \<or> (\<exists>good c. fl = good @ [c] \<and> tr = fl \<and> list_all returned_non_false good
           \<and> prefix (map call_target fl) (map (\<lambda>f. (f, argv)) (functionsOf hs))
           \<and> (call_outcome c = Returns (JBool False) \<or> (\<exists>e. call_outcome c = Throws e))))"
proof -
  obtain res w0 tr0 where run: "runFlagHandlers invoke hs argv (JBool True) w [] = (res, w0, tr0)"
    by (cases "runFlagHandlers invoke hs argv (JBool True) w []") auto
  have "JBool True \<noteq> JBool False" by simp
  from runFlagHandlers_trace [OF this run] obtain fl where
    tr0: "tr0 = fl" and fl: "list_all (\<lambda>c. call_site c = Flag) fl"
    and alt: "(list_all returned_non_false fl
        \<and> map call_target fl = map (\<lambda>f. (f, argv)) (functionsOf hs)
        \<and> (\<exists>d. res = Inr d \<and> d \<noteq> JBool False))
     \<or> (\<exists>good c. fl = good @ [c] \<and> list_all returned_non_false good
           \<and> prefix (map call_target fl) (map (\<lambda>f. (f, argv)) (functionsOf hs))
           \<and> ((res = Inr (JBool False) \<and> call_outcome c = Returns (JBool False))
                \<or> (\<exists>e. res = Inl (Thrown e) \<and> call_outcome c = Throws e)))"
    by auto
  from alt show ?thesis
  proof
    assume a: "list_all returned_non_false fl
        \<and> map call_target fl = map (\<lambda>f. (f, argv)) (functionsOf hs)
        \<and> (\<exists>d. res = Inr d \<and> d \<noteq> JBool False)"
    then obtain d where d: "res = Inr d" "d \<noteq> JBool False" by blast
    obtain out w2 where inv: "invoke oh argv w0 = (out, w2)" by (cases "invoke oh argv w0")
    have "tr = fl @ [Call Primary oh argv out]"
      using assms run d inv tr0 by (cases out) (simp_all add: commandHandler_def)
    with a fl show ?thesis by blast
  next
    assume "\<exists>good c. fl = good @ [c] \<and> list_all returned_non_false good
           \<and> prefix (map call_target fl) (map (\<lambda>f. (f, argv)) (functionsOf hs))
           \<and> ((res = Inr (JBool False) \<and> call_outcome c = Returns (JBool False))
                \<or> (\<exists>e. res = Inl (Thrown e) \<and> call_outcome c = Throws e))"
    then obtain good c where b: "fl = good @ [c]" "list_all returned_non_false good"
      "prefix (map call_target fl) (map (\<lambda>f. (f, argv)) (functionsOf hs))"
      "(res = Inr (JBool False) \<and> call_outcome c = Returns (JBool False))
                \<or> (\<exists>e. res = Inl (Thrown e) \<and> call_outcome c = Throws e)"
      by blast
    have "tr = fl"
      using assms run b(4) tr0 by (auto simp: commandHandler_def)
    moreover have "call_outcome c = Returns (JBool False) \<or> (\<exists>e. call_outcome c = Throws e)"
      using b(4) by blast
    ultimately show ?thesis using fl b(1,2,3) by blast
  qed
qed

lemma filter_flag_all: "list_all (\<lambda>c. call_site c = Flag) fl \<Longrightarrow> filter (\<lambda>c. call_site c = Flag) fl = fl"
  by (induction fl) simp_all

lemma filter_primary_none:
  "list_all (\<lambda>c. call_site c = Flag) fl \<Longrightarrow> filter (\<lambda>c. call_site c = Primary) fl = []"
  by (induction fl) simp_all

lemma registerCommandFlag_appends:
  assumes "registerCommandFlag env (JStr c) flag h s = (None, s1)"
  shows "map_of (registeredCommandHandlers s1) (getCommandName c)
    = Some ((case map_of (registeredCommandHandlers s) (getCommandName c) of
               Some hs \<Rightarrow> hs | None \<Rightarrow> []) @ [h])"
  using assms by (auto simp: registerCommandFlag_def Let_def update_conv' split: option.splits)

text \<open>
  C1. Every call of registerCommandFlag puts its handler at the end of the
  command's handler list. When runCommand dispatches a command that has a handler
  list (the parser calls the composite handler with the parsed arguments
  \<open>argv\<close>): the flag handlers that are called are an initial part of the list, in
  its order, each called with \<open>argv\<close>; if one of them returns \<^verbatim>\<open>false\<close>, that
  call is the last call made and the primary handler is not called; if every flag
  handler that is called returns a value other than \<^verbatim>\<open>false\<close>, then all of them
  are called and after them the primary handler, once, with \<open>argv\<close>.
\<close>

theorem runCommand_flag_handlers:
  assumes "map_of (registeredCommands s) cmd = Some entry"
    and "get_prop entry ''handler'' = JFun oh"
    and "map_of (registeredCommandHandlers s) cmd = Some hs"
    and "registrationCheck env s cmd entry = None"
    and "parse (get_prop entry ''command'') (commandBuilder s cmd entry) (dispatchArgs cmd rawArgs)
          = Some argv"
    and "runCommand env parse invoke cmd rawArgs s w = (r, s1, w1, tr)"
  shows "(\<forall>c flag h s0 s2. registerCommandFlag env (JStr c) flag h s0 = (None, s2) \<longrightarrow>
            map_of (registeredCommandHandlers s2) (getCommandName c)
              = Some ((case map_of (registeredCommandHandlers s0) (getCommandName c) of
                         Some hs0 \<Rightarrow> hs0 | None \<Rightarrow> []) @ [h]))
    \<and> prefix (map call_target (filter (\<lambda>c. call_site c = Flag) tr))
              (map (\<lambda>f. (f, argv)) (functionsOf hs))
    \<and> ((\<exists>c\<in>set tr. call_site c = Flag \<and> call_outcome c = Returns (JBool False)) \<longrightarrow>
          tr \<noteq> [] \<and> call_site (last tr) = Flag \<and> call_outcome (last tr) = Returns (JBool False)
          \<and> filter (\<lambda>c. call_site c = Primary) tr = [])
    \<and> ((\<forall>c\<in>set tr. call_site c = Flag \<longrightarrow> returned_non_false c) \<longrightarrow>
          map call_target (filter (\<lambda>c. call_site c = Flag) tr)
            = map (\<lambda>f. (f, argv)) (functionsOf hs)
          \<and> (\<exists>out. tr = filter (\<lambda>c. call_site c = Flag) tr @ [Call Primary oh argv out])
          \<and> length (filter (\<lambda>c. call_site c = Primary) tr) = 1)"
proof -
  obtain r0 w0 tr0 where ch: "commandHandler invoke (JArr hs) (JFun oh) argv w = (r0, w0, tr0)"
    by (cases "commandHandler invoke (JArr hs) (JFun oh) argv w") auto
  have "truthy entry"
    using assms(2) by (cases entry) simp_all
  then have "tr = tr0"
    using assms ch by (simp add: runCommand_def Let_def)
  with commandHandler_trace [OF ch] obtain fl where
    fl: "list_all (\<lambda>c. call_site c = Flag) fl"
    and alt: "(list_all returned_non_false fl
        \<and> map call_target fl = map (\<lambda>f. (f, argv)) (functionsOf hs)
        \<and> (\<exists>out. tr = fl @ [Call Primary oh argv out]))
     \<or> (\<exists>good c. fl = good @ [c] \<and> tr = fl \<and> list_all returned_non_false good
           \<and> prefix (map call_target fl) (map (\<lambda>f. (f, argv)) (functionsOf hs))
           \<and> (call_outcome c = Returns (JBool False) \<or> (\<exists>e. call_outcome c = Throws e)))"
    by blast
  have reg: "\<forall>c flag h s0 s2. registerCommandFlag env (JStr c) flag h s0 = (None, s2) \<longrightarrow>
            map_of (registeredCommandHandlers s2) (getCommandName c)
              = Some ((case map_of (registeredCommandHandlers s0) (getCommandName c) of
                         Some hs0 \<Rightarrow> hs0 | None \<Rightarrow> []) @ [h])"
    using registerCommandFlag_appends by blast
  from alt show ?thesis
  proof
    assume a: "list_all returned_non_false fl
        \<and> map call_target fl = map (\<lambda>f. (f, argv)) (functionsOf hs)
        \<and> (\<exists>out. tr = fl @ [Call Primary oh argv out])"
    then obtain out where tr: "tr = fl @ [Call Primary oh argv out]" by blast
    have ff: "filter (\<lambda>c. call_site c = Flag) tr = fl"
      using tr fl by (simp add: filter_flag_all)
    have fp: "filter (\<lambda>c. call_site c = Primary) tr = [Call Primary oh argv out]"
      using tr fl by (simp add: filter_primary_none)
    have nofalse: "\<not> (\<exists>c\<in>set tr. call_site c = Flag \<and> call_outcome c = Returns (JBool False))"
    proof
      assume "\<exists>c\<in>set tr. call_site c = Flag \<and> call_outcome c = Returns (JBool False)"
      then obtain c where c: "c \<in> set tr" "call_site c = Flag" "call_outcome c = Returns (JBool False)"
        by blast
      then have "c \<in> set fl" using tr by auto
      then have "returned_non_false c" using a by (auto simp: list_all_iff)
      with c(3) show False by (simp add: returned_non_false_def)
    qed
    show ?thesis
      using reg a ff fp nofalse tr by auto
  next
    assume "\<exists>good c. fl = good @ [c] \<and> tr = fl \<and> list_all returned_non_false good
           \<and> prefix (map call_target fl) (map (\<lambda>f. (f, argv)) (functionsOf hs))
           \<and> (call_outcome c = Returns (JBool False) \<or> (\<exists>e. call_outcome c = Throws e))"
    then obtain good c where b: "fl = good @ [c]" "tr = fl" "list_all returned_non_false good"
      "prefix (map call_target fl) (map (\<lambda>f. (f, argv)) (functionsOf hs))"
      "call_outcome c = Returns (JBool False) \<or> (\<exists>e. call_outcome c = Throws e)"
      by blast
    have ff: "filter (\<lambda>c. call_site c = Flag) tr = fl"
      using b(2) fl by (simp add: filter_flag_all)
    have fp: "filter (\<lambda>c. call_site c = Primary) tr = []"
      using b(2) fl by (simp add: filter_primary_none)
    have last: "tr \<noteq> []" "last tr = c" using b(1,2) by simp_all
    have site: "call_site c = Flag" using fl b(1) by simp
    have bad: "\<not> returned_non_false c"
      using b(5) by (auto simp: returned_non_false_def)
    have part2: "(\<exists>c\<in>set tr. call_site c = Flag \<and> call_outcome c = Returns (JBool False)) \<longrightarrow>
          tr \<noteq> [] \<and> call_site (last tr) = Flag \<and> call_outcome (last tr) = Returns (JBool False)
          \<and> filter (\<lambda>c. call_site c = Primary) tr = []"
    proof
      assume "\<exists>c\<in>set tr. call_site c = Flag \<and> call_outcome c = Returns (JBool False)"
      then obtain c' where c': "c' \<in> set tr" "call_outcome c' = Returns (JBool False)" by blast
      have "c' = c"
      proof (rule ccontr)
        assume "c' \<noteq> c"
        with c'(1) b(1,2) have "c' \<in> set good" by auto
        then have "returned_non_false c'" using b(3) by (auto simp: list_all_iff)
        with c'(2) show False by (simp add: returned_non_false_def)
      qed
      with c'(2) last site fp show "tr \<noteq> [] \<and> call_site (last tr) = Flag
          \<and> call_outcome (last tr) = Returns (JBool False)
          \<and> filter (\<lambda>c. call_site c = Primary) tr = []"
        by simp
    qed
    have "\<not> (\<forall>c\<in>set tr. call_site c = Flag \<longrightarrow> returned_non_false c)"
      using bad site b(1,2) by auto
    then have part3: "(\<forall>c\<in>set tr. call_site c = Flag \<longrightarrow> returned_non_false c) \<longrightarrow>
          map call_target (filter (\<lambda>c. call_site c = Flag) tr)
            = map (\<lambda>f. (f, argv)) (functionsOf hs)
          \<and> (\<exists>out. tr = filter (\<lambda>c. call_site c = Flag) tr @ [Call Primary oh argv out])
          \<and> length (filter (\<lambda>c. call_site c = Primary) tr) = 1"
      by blast
    have part1: "prefix (map call_target (filter (\<lambda>c. call_site c = Flag) tr))
              (map (\<lambda>f. (f, argv)) (functionsOf hs))"
      using b(4) ff by simp
    from reg part1 part2 part3 show ?thesis by (intro conjI)
  qed
qed

lemma example_run_all:
  "runCommand example_plugin_env example_parser (example_caller JUndefined) ''build''
     [JStr ''--watch''] example_initialized (0::nat)
   = (None, example_initialized, 3,
      [Call Flag 10 (JArr [JStr ''build'', JStr ''--watch'']) (Returns (JBool True)),
       Call Flag 11 (JArr [JStr ''build'', JStr ''--watch'']) (Returns JUndefined),
       Call Primary 9 (JArr [JStr ''build'', JStr ''--watch'']) (Returns JUndefined)])"
  by (simp add: runCommand_def registrationCheck_def commandBuilder_def dispatchArgs_def
      commandHandler_def example_plugin_env_def example_parser_def example_caller_def
      example_initialized_def example_service_def js_or_def object_assign_def Let_def)

lemma example_run_stopped:
  "runCommand example_plugin_env example_parser (example_caller (JBool False)) ''build''
     [JStr ''--watch''] example_initialized (0::nat)
   = (None, example_initialized, 2,
      [Call Flag 10 (JArr [JStr ''build'', JStr ''--watch'']) (Returns (JBool True)),
       Call Flag 11 (JArr [JStr ''build'', JStr ''--watch'']) (Returns (JBool False))])"
  by (simp add: runCommand_def registrationCheck_def commandBuilder_def dispatchArgs_def
      commandHandler_def example_plugin_env_def example_parser_def example_caller_def
      example_initialized_def example_service_def js_or_def object_assign_def Let_def)

theorem runCommand_flag_handlers_witness:
  "(\<exists>r s1 w1 tr.
      runCommand example_plugin_env example_parser (example_caller JUndefined) ''build''
        [JStr ''--watch''] example_initialized (0::nat) = (r, s1, w1, tr)
      \<and> map call_target (filter (\<lambda>c. call_site c = Flag) tr)
          = [(10, JArr [JStr ''build'', JStr ''--watch'']), (11, JArr [JStr ''build'', JStr ''--watch''])]
      \<and> length (filter (\<lambda>c. call_site c = Primary) tr) = 1)
   \<and> (\<exists>r s1 w1 tr.
      runCommand example_plugin_env example_parser (example_caller (JBool False)) ''build''
        [JStr ''--watch''] example_initialized (0::nat) = (r, s1, w1, tr)
      \<and> call_outcome (last tr) = Returns (JBool False)
      \<and> filter (\<lambda>c. call_site c = Primary) tr = [])"
proof -
  let ?entry = "JObj [(''command'', JStr ''build <entry>''), (''handler'', JFun 9),
                      (''description'', JBool False), (''builder'', JObj []),
                      (''middlewares'', JArr [])]"
  let ?argv = "JArr [JStr ''build'', JStr ''--watch'']"
  have e: "map_of (registeredCommands example_initialized) ''build'' = Some ?entry"
    and h: "get_prop ?entry ''handler'' = JFun 9"
    and hs: "map_of (registeredCommandHandlers example_initialized) ''build'' = Some [JFun 10, JFun 11]"
    and a: "registrationCheck example_plugin_env example_initialized ''build'' ?entry = None"
    and p: "example_parser (get_prop ?entry ''command'')
              (commandBuilder example_initialized ''build'' ?entry)
              (dispatchArgs ''build'' [JStr ''--watch'']) = Some ?argv"
    by (simp_all add: example_initialized_def example_service_def registrationCheck_def
        example_plugin_env_def example_parser_def dispatchArgs_def)
  have fns: "map (\<lambda>f. (f, ?argv)) (functionsOf [JFun 10, JFun 11]) = [(10, ?argv), (11, ?argv)]"
    by (simp add: functionsOf_def)
  note all = runCommand_flag_handlers [OF e h hs a p example_run_all]
  note stopped = runCommand_flag_handlers [OF e h hs a p example_run_stopped]
  let ?tr = "[Call Flag 10 ?argv (Returns (JBool True)), Call Flag 11 ?argv (Returns JUndefined),
              Call Primary 9 ?argv (Returns JUndefined)]"
  let ?tr2 = "[Call Flag 10 ?argv (Returns (JBool True)), Call Flag 11 ?argv (Returns (JBool False))]"
  have ok: "\<forall>c\<in>set ?tr. call_site c = Flag \<longrightarrow> returned_non_false c"
    by (simp add: returned_non_false_def)
  have f1: "map call_target (filter (\<lambda>c. call_site c = Flag) ?tr) = [(10, ?argv), (11, ?argv)]
      \<and> length (filter (\<lambda>c. call_site c = Primary) ?tr) = 1"
    using all ok fns by simp
  have ex: "\<exists>c\<in>set ?tr2. call_site c = Flag \<and> call_outcome c = Returns (JBool False)"
    by simp
  have f2: "call_outcome (last ?tr2) = Returns (JBool False)
      \<and> filter (\<lambda>c. call_site c = Primary) ?tr2 = []"
    using stopped ex by simp
  have first: "\<exists>r s1 w1 tr.
      runCommand example_plugin_env example_parser (example_caller JUndefined) ''build''
        [JStr ''--watch''] example_initialized (0::nat) = (r, s1, w1, tr)
      \<and> map call_target (filter (\<lambda>c. call_site c = Flag) tr) = [(10, ?argv), (11, ?argv)]
      \<and> length (filter (\<lambda>c. call_site c = Primary) tr) = 1"
    using f1 unfolding example_run_all by (intro exI conjI) (rule refl, simp_all)
  have second: "\<exists>r s1 w1 tr.
      runCommand example_plugin_env example_parser (example_caller (JBool False)) ''build''
        [JStr ''--watch''] example_initialized (0::nat) = (r, s1, w1, tr)
      \<and> call_outcome (last tr) = Returns (JBool False)
      \<and> filter (\<lambda>c. call_site c = Primary) tr = []"
    using f2 unfolding example_run_stopped by (intro exI conjI) (rule refl, simp_all)
  from first second show ?thesis by (rule conjI)
qed

section \<open>Properties of resolveWebpackConfig\<close>

text \<open>
  C9. On a service whose initialized flag is false, resolveWebpackConfig throws
  and leaves the service as it was. The error is the SError of line 458 whenever the
  chainable config is there: passed by the caller or, when none is passed, computed
  as the default value of the parameter, which runs the chain callbacks first; if one
  of them throws, the error is theirs.
\<close>

theorem resolveWebpackConfig_before_init:
  assumes "\<not> initialized s"
  shows "(\<exists>e. resolveWebpackConfig env chainableConfig s = (Inl e, s))
    \<and> ((\<exists>c. chainableArgument env chainableConfig s = Inr c) \<longrightarrow>
          resolveWebpackConfig env chainableConfig s
            = (Inl (SError ''Service must call init() before calling resolveWebpackConfig().'' (JStr [])), s))
    \<and> (chainableConfig \<noteq> JUndefined \<longrightarrow> chainableArgument env chainableConfig s = Inr chainableConfig)"
  using assms by (auto simp: resolveWebpackConfig_def chainableArgument_def split: sum.splits)

theorem resolveWebpackConfig_before_init_witness:
  "resolveWebpackConfig example_webpack_env JUndefined example_service
     = (Inl (SError ''Service must call init() before calling resolveWebpackConfig().'' (JStr [])),
        example_service)
   \<and> resolveWebpackConfig example_webpack_env (JObj []) example_service
     = (Inl (SError ''Service must call init() before calling resolveWebpackConfig().'' (JStr [])),
        example_service)
   \<and> \<not> initialized example_service"
proof -
  have n: "\<not> initialized example_service" by (simp add: example_service_def)
  have c: "\<exists>c. chainableArgument example_webpack_env JUndefined example_service = Inr c"
    by (simp add: chainableArgument_def resolveChainableWebpackConfig_def example_service_def
        example_webpack_env_def)
  have d: "JObj [] \<noteq> JUndefined" by simp
  from resolveWebpackConfig_before_init [OF n, of example_webpack_env JUndefined] c
  have one: "resolveWebpackConfig example_webpack_env JUndefined example_service
     = (Inl (SError ''Service must call init() before calling resolveWebpackConfig().'' (JStr [])),
        example_service)"
    by blast
  from resolveWebpackConfig_before_init [OF n, of example_webpack_env "JObj []"] d
  have two: "resolveWebpackConfig example_webpack_env (JObj []) example_service
     = (Inl (SError ''Service must call init() before calling resolveWebpackConfig().'' (JStr [])),
        example_service)"
    by blast
  from one two n show ?thesis by (intro conjI)
qed

















section \<open>Properties of loadEnv\<close>

lemma fold_setIfAbsent:
  "fold setIfAbsent vars penv k
     = (case penv k of None \<Rightarrow> map_option JStr (map_of vars k) | Some v \<Rightarrow> Some v)"
proof (induction vars arbitrary: penv)
  case Nil
  then show ?case by (simp split: option.splits)
next
  case (Cons kv vars)
  obtain k' v' where kv: "kv = (k', v')" by (cases kv)
  show ?case
    unfolding fold_simps Cons.IH
    by (simp add: setIfAbsent_def kv split: option.splits)
qed

lemma setIfNull_other: "k \<noteq> k' \<Longrightarrow> setIfNull d k' penv k = penv k"
  by (simp add: setIfNull_def)

lemma setIfNull_same:
  "setIfNull d k penv k = (if penv k = Some JNull then Some (JStr d) else penv k)"
  by (simp add: setIfNull_def)

lemma fold_setIfNull:
  assumes "k = ''NODE_ENV'' \<or> k = ''BABEL_ENV''"
  shows "fold (setIfNull d) [''NODE_ENV'', ''BABEL_ENV''] penv k
     = (if penv k = Some JNull then Some (JStr d) else penv k)"
  using assms by (auto simp: setIfNull_def)

text \<open>
  C10 (amended). When loadEnv is called with a non-empty mode and returns, then for
  NODE_ENV and for BABEL_ENV: a variable that was absent is still absent unless the
  env files define it, and then it has the value the files give; it never receives
  the default derived from the mode. A variable that was present is changed only
  when its value was exactly \<^verbatim>\<open>null\<close>, and then to that default.
\<close>

theorem loadEnv_mode_default:
  assumes "m \<noteq> []" and "k = ''NODE_ENV'' \<or> k = ''BABEL_ENV''"
    and "loadEnv files m penv = Inr penv'"
  shows "(penv k = None \<longrightarrow> penv' k = map_option JStr (fileValue files m k))
       \<and> (penv k \<noteq> None \<and> penv' k \<noteq> penv k \<longrightarrow>
            penv k = Some JNull
            \<and> penv' k = Some (JStr (if m = ''production'' then m else ''development'')))"
proof (cases "envObj files m")
  case (Inl e)
  with assms(3) show ?thesis by (simp add: loadEnv_def)
next
  case (Inr found)
  show ?thesis
  proof (cases found)
    case None
    with Inr assms(3) have "penv' = penv" by (simp add: loadEnv_def)
    moreover have "fileValue files m k = None" using Inr None by (simp add: fileValue_def)
    ultimately show ?thesis by simp
  next
    case (Some vars)
    let ?d = "if m = ''production'' then m else ''development''"
    let ?p1 = "fold setIfAbsent vars penv"
    have p': "penv' = fold (setIfNull ?d) [''NODE_ENV'', ''BABEL_ENV''] ?p1"
      using Inr Some assms(1,3) by (simp add: loadEnv_def Let_def)
    have fv: "fileValue files m k = map_of vars k"
      using Inr Some by (simp add: fileValue_def)
    have at: "penv' k = (if ?p1 k = Some JNull then Some (JStr ?d) else ?p1 k)"
      unfolding p' using assms(2) by (rule fold_setIfNull)
    have p1: "?p1 k = (case penv k of None \<Rightarrow> map_option JStr (map_of vars k) | Some v \<Rightarrow> Some v)"
      by (rule fold_setIfAbsent)
    show ?thesis
    proof (cases "penv k")
      case None
      then have "?p1 k = map_option JStr (map_of vars k)" using p1 by simp
      then have "?p1 k \<noteq> Some JNull" by (cases "map_of vars k") simp_all
      with at None fv \<open>?p1 k = map_option JStr (map_of vars k)\<close> show ?thesis by simp
    next
      case (Some v)
      then have "?p1 k = Some v" using p1 by simp
      with at Some show ?thesis by (auto split: if_splits)
    qed
  qed
qed

lemma example_files_envObj:
  "envObj example_files ''production'' = Inr (Some [(''NODE_ENV'', ''test'')])"
  by (simp add: envObj_def example_files_def modeEnvName_def)

theorem loadEnv_mode_default_witness:
  "loadEnv example_files ''production'' [''BABEL_ENV'' \<mapsto> JNull]
     = Inr [''BABEL_ENV'' \<mapsto> JStr ''production'', ''NODE_ENV'' \<mapsto> JStr ''test'']
   \<and> [''BABEL_ENV'' \<mapsto> JStr ''production'', ''NODE_ENV'' \<mapsto> JStr ''test''] ''NODE_ENV''
       = map_option JStr (fileValue example_files ''production'' ''NODE_ENV'')
   \<and> [''BABEL_ENV'' \<mapsto> JStr ''production'', ''NODE_ENV'' \<mapsto> JStr ''test''] ''BABEL_ENV''
       = Some (JStr ''production'')"
proof -
  let ?penv = "[''BABEL_ENV'' \<mapsto> JNull] :: process_env"
  let ?penv' = "[''BABEL_ENV'' \<mapsto> JStr ''production'', ''NODE_ENV'' \<mapsto> JStr ''test''] :: process_env"
  have run: "loadEnv example_files ''production'' ?penv = Inr ?penv'"
    by (auto simp: loadEnv_def example_files_envObj setIfAbsent_def setIfNull_def)
  have m: "''production'' \<noteq> ([] :: string)" by simp
  have n: "?penv ''NODE_ENV'' = None" by simp
  have b: "?penv ''BABEL_ENV'' \<noteq> None \<and> ?penv' ''BABEL_ENV'' \<noteq> ?penv ''BABEL_ENV''" by simp
  from loadEnv_mode_default [OF m _ run, of "''NODE_ENV''"] n
  have "?penv' ''NODE_ENV'' = map_option JStr (fileValue example_files ''production'' ''NODE_ENV'')"
    by blast
  moreover from loadEnv_mode_default [OF m _ run, of "''BABEL_ENV''"] b
  have "?penv' ''BABEL_ENV'' = Some (JStr ''production'')"
    by simp
  ultimately show ?thesis using run by blast
qed

theorem loadEnv_file_sets_variable_counterexample:
  "loadEnv example_files ''production'' Map.empty = Inr [''NODE_ENV'' \<mapsto> JStr ''test'']"
  by (simp add: loadEnv_def example_files_envObj setIfAbsent_def setIfNull_def)

end
